theory Spec2Isabelle
  imports Main "HOL-Library.Sublist"
begin

section \<open>Values shared by both tools\<close>

text \<open>
  The two scripts \<^verbatim>\<open>sync_repos.py\<close> and \<^verbatim>\<open>cleanup_tool.py\<close> are embedded as HOL
  functions. A Python \<^verbatim>\<open>str\<close> is a \<open>string\<close> holding its UTF-8 bytes; the only string
  operations the modelled code uses are equality, truthiness and the substring test
  \<^verbatim>\<open>in\<close>, which agree on bytes and on code points for well-formed UTF-8. A value that
  may be \<^verbatim>\<open>None\<close> (a JSON null, a missing dictionary key read with \<^verbatim>\<open>.get\<close>, an unset
  environment variable) is a \<open>string option\<close>. Counters are Python integers, hence \<open>int\<close>.
\<close>

datatype exn =
    ValueError string
  | FileNotFoundError string
  | KeyError string
  | RequestException
  | HTTPError nat

text \<open>
  \<open>RequestException\<close> is a transport failure raised by \<^verbatim>\<open>session.request\<close> and
  \<open>HTTPError\<close> is what \<^verbatim>\<open>raise_for_status\<close> raises on a 4xx or 5xx status.
\<close>

text \<open>Python truthiness of an optional string: \<^verbatim>\<open>None\<close> and \<^verbatim>\<open>""\<close> are falsy.\<close>

definition truthy :: "string option \<Rightarrow> bool" where
  "truthy v = (case v of None \<Rightarrow> False | Some s \<Rightarrow> s \<noteq> [])"

text \<open>\<^verbatim>\<open>sep.join(xs)\<close>\<close>

fun join :: "string \<Rightarrow> string list \<Rightarrow> string" where
  "join sep [] = []"
| "join sep [x] = x"
| "join sep (x # y # ys) = x @ sep @ join sep (y # ys)"

section \<open>Loading the organization list\<close>

text \<open>
  One record of the organization file, as read through \<^verbatim>\<open>o.get("id")\<close> and
  \<^verbatim>\<open>o.get("chineseName")\<close>: \<open>None\<close> is a key that is missing or null.
\<close>

record organization =
  org_id :: "string option"
  chineseName :: "string option"

text \<open>
  What \<^verbatim>\<open>open\<close> followed by \<^verbatim>\<open>json.load\<close> yields for a path: the file is missing, it is
  not JSON, or it is a list of organization records.
\<close>

datatype org_file = FileMissing | InvalidJson | OrgList "organization list"

definition org_file_name :: "bool \<Rightarrow> string" where
  "org_file_name DEBUG = (if DEBUG then ''config/debug-org.json'' else ''config/org-azure.json'')"

text \<open>
  \<^verbatim>\<open>load_organizations\<close> (sync_repos.py lines 60-77); \<open>DEBUG\<close> is the module global and
  \<open>fs\<close> the file system. The \<^verbatim>\<open>ValueError\<close> raised for an empty selection is not caught
  by either \<^verbatim>\<open>except\<close> clause and leaves the function.
\<close>

definition load_organizations :: "bool \<Rightarrow> (string \<Rightarrow> org_file) \<Rightarrow> exn + organization list" where
  "load_organizations DEBUG fs =
     (let org_file = org_file_name DEBUG in
      case fs org_file of
        FileMissing \<Rightarrow>
          Inl (FileNotFoundError (''Organization configuration file not found: '' @ org_file))
      | InvalidJson \<Rightarrow> Inl (ValueError ''Invalid JSON in organization configuration'')
      | OrgList orgs \<Rightarrow>
          (let valid_orgs = filter (\<lambda>org. truthy (org_id org) \<and> truthy (chineseName org)) orgs in
           if valid_orgs = []
           then Inl (ValueError ''No valid organizations found in configuration'')
           else Inr valid_orgs))"

text \<open>The function of the same name in cleanup_tool.py (lines 45-62) has the same text.\<close>

definition cleanup_load_organizations :: "bool \<Rightarrow> (string \<Rightarrow> org_file) \<Rightarrow> exn + organization list" where
  "cleanup_load_organizations DEBUG fs =
     (let org_file = org_file_name DEBUG in
      case fs org_file of
        FileMissing \<Rightarrow>
          Inl (FileNotFoundError (''Organization configuration file not found: '' @ org_file))
      | InvalidJson \<Rightarrow> Inl (ValueError ''Invalid JSON in organization configuration'')
      | OrgList orgs \<Rightarrow>
          (let valid_orgs = filter (\<lambda>org. truthy (org_id org) \<and> truthy (chineseName org)) orgs in
           if valid_orgs = []
           then Inl (ValueError ''No valid organizations found in configuration'')
           else Inr valid_orgs))"

text \<open>
  The specification's wording of the selection: a record is kept when it has a non-empty
  id and a non-empty display name.
\<close>

definition has_nonempty :: "string option \<Rightarrow> bool" where
  "has_nonempty v = (\<exists>s. v = Some s \<and> 0 < length s)"

definition spec_valid_org :: "organization \<Rightarrow> bool" where
  "spec_valid_org org = (has_nonempty (org_id org) \<and> has_nonempty (chineseName org))"

section \<open>Loading the configuration\<close>

text \<open>
  \<^verbatim>\<open>os.getenv\<close> is a map from variable names to values. A configuration is the
  dictionary \<^verbatim>\<open>load_config\<close> returns; every key it holds at the return is bound to a
  string.
\<close>

definition required_keys :: "string list" where
  "required_keys =
     [''AZURE_DEVOPS_TOKEN'', ''AZURE_DEVOPS_ORGANIZATION'', ''IQ_SERVER_URL'',
      ''IQ_USERNAME'', ''IQ_PASSWORD'']"

definition getenv_default :: "(string \<rightharpoonup> string) \<Rightarrow> string \<Rightarrow> string \<Rightarrow> string" where
  "getenv_default getenv k d = (case getenv k of None \<Rightarrow> d | Some v \<Rightarrow> v)"

text \<open>\<^verbatim>\<open>load_config\<close> of sync_repos.py (lines 32-57).\<close>

definition load_config :: "(string \<rightharpoonup> string) \<Rightarrow> exn + (string \<rightharpoonup> string)" where
  "load_config getenv =
     (let missing = filter (\<lambda>k. \<not> truthy (getenv k)) required_keys in
      if missing \<noteq> []
      then Inl (ValueError (''Missing required environment variables: '' @ join '', '' missing))
      else Inr ((getenv |` set required_keys)
                  (''DEFAULT_BRANCH'' \<mapsto> getenv_default getenv ''DEFAULT_BRANCH'' ''main'',
                   ''STAGE_ID'' \<mapsto> getenv_default getenv ''STAGE_ID'' ''source'')))"

definition cleanup_required_keys :: "string list" where
  "cleanup_required_keys = [''IQ_SERVER_URL'', ''IQ_USERNAME'', ''IQ_PASSWORD'']"

text \<open>\<^verbatim>\<open>load_config\<close> of cleanup_tool.py (lines 29-42).\<close>

definition cleanup_load_config :: "(string \<rightharpoonup> string) \<Rightarrow> exn + (string \<rightharpoonup> string)" where
  "cleanup_load_config getenv =
     (let missing = filter (\<lambda>k. \<not> truthy (getenv k)) cleanup_required_keys in
      if missing \<noteq> []
      then Inl (ValueError (''Missing required environment variables: '' @ join '', '' missing))
      else Inr (getenv |` set cleanup_required_keys))"

section \<open>The remote services\<close>

text \<open>
  The entities exchanged with the two services, with the fields the code reads.
  A project's \<open>description\<close> is \<open>None\<close> when the host sends null or no description.
\<close>

record project =
  project_id :: string
  project_name :: string
  description :: "string option"

record application =
  app_name :: string
  app_id :: string

text \<open>
  One HTTP request, named by its endpoint and the parameters the code puts into the
  URL or the JSON body (base URL, credentials and the derived \<^verbatim>\<open>publicId\<close> are left out):
  \<^item> \<open>GetProjects\<close>: GET \<^verbatim>\<open>/_apis/projects\<close> on the source-control host;
  \<^item> \<open>GetRepositories project_id\<close>: GET \<^verbatim>\<open>/{project_id}/_apis/git/repositories\<close>;
  \<^item> \<open>GetApplications org_id\<close>: GET \<^verbatim>\<open>/api/v2/applications/organization/{org_id}\<close>;
  \<^item> \<open>PostApplication name org_id\<close>: POST \<^verbatim>\<open>/api/v2/applications\<close>;
  \<^item> \<open>PostSourceControl app_id repo_url branch\<close>: POST
    \<^verbatim>\<open>/api/v2/sourceControl/application/{app_id}\<close>;
  \<^item> \<open>PostEvaluation app_id branch stage_id\<close>: POST
    \<^verbatim>\<open>/api/v2/evaluation/applications/{app_id}/sourceControlEvaluation\<close>;
  \<^item> \<open>DeleteApplication app_id\<close>: DELETE \<^verbatim>\<open>/api/v2/applications/{app_id}\<close>.
\<close>

datatype call =
    GetProjects
  | GetRepositories string
  | GetApplications string
  | PostApplication string string
  | PostSourceControl string string string
  | PostEvaluation string string string
  | DeleteApplication string

text \<open>
  The decoded body of a response: the project listing \<^verbatim>\<open>{"value": [...]}\<close>, the
  repository listing (the \<^verbatim>\<open>remoteUrl\<close> of each entry, \<open>None\<close> when it has none), the
  application listing \<^verbatim>\<open>{"applications": [...]}\<close>, a created application \<^verbatim>\<open>{"id": ...}\<close>,
  or anything else. The fields carry the types the two services give them. Where a client
  method needs one of these documents and the body is another, decoding or indexing it
  raises inside the method's \<^verbatim>\<open>try\<close>, and the method returns what its \<^verbatim>\<open>except\<close>
  clause returns.
\<close>

datatype body =
    ProjectsBody "project list"
  | RepositoriesBody "string option list"
  | ApplicationsBody "application list"
  | ApplicationBody string
  | OtherBody

datatype http_result = ConnectionFailed | Response nat body

text \<open>
  A service answers a request in a state of the outside world \<open>'w\<close> and moves to a
  new one. Every operation below returns its result, the requests it sent with their
  answers (in order), and the new state of the world.
\<close>

type_synonym 'w server = "call \<Rightarrow> 'w \<Rightarrow> http_result \<times> 'w"
type_synonym trace = "(call \<times> http_result) list"
type_synonym ('a, 'w) op = "'w \<Rightarrow> (exn + 'a) \<times> trace \<times> 'w"

text \<open>
  \<^verbatim>\<open>IQ._request\<close> and \<^verbatim>\<open>AzureDevOps._request\<close>: send, \<^verbatim>\<open>raise_for_status\<close>, return the
  response (its status code and body); both re-raise after logging.
\<close>

definition IQ_request :: "'w server \<Rightarrow> call \<Rightarrow> (nat \<times> body, 'w) op" where
  "IQ_request srv c w =
     (case srv c w of
        (ConnectionFailed, w') \<Rightarrow> (Inl RequestException, [(c, ConnectionFailed)], w')
      | (Response status_code b, w') \<Rightarrow>
          if 400 \<le> status_code \<and> status_code < 600
          then (Inl (HTTPError status_code), [(c, Response status_code b)], w')
          else (Inr (status_code, b), [(c, Response status_code b)], w'))"

definition AzureDevOps_request :: "'w server \<Rightarrow> call \<Rightarrow> (nat \<times> body, 'w) op" where
  "AzureDevOps_request srv c w =
     (case srv c w of
        (ConnectionFailed, w') \<Rightarrow> (Inl RequestException, [(c, ConnectionFailed)], w')
      | (Response status_code b, w') \<Rightarrow>
          if 400 \<le> status_code \<and> status_code < 600
          then (Inl (HTTPError status_code), [(c, Response status_code b)], w')
          else (Inr (status_code, b), [(c, Response status_code b)], w'))"

subsection \<open>The scan-server client of sync_repos.py\<close>

text \<open>The dictionary comprehension \<^verbatim>\<open>{app["name"]: app["id"] for app in ...}\<close>.\<close>

definition apps_dict :: "application list \<Rightarrow> (string \<rightharpoonup> string)" where
  "apps_dict apps = foldl (\<lambda>m a. m(app_name a \<mapsto> app_id a)) Map.empty apps"

text \<open>\<^verbatim>\<open>IQ.get_applications\<close> (sync_repos.py lines 100-109).\<close>

definition IQ_get_applications :: "'w server \<Rightarrow> string \<Rightarrow> (string \<rightharpoonup> string, 'w) op" where
  "IQ_get_applications srv org w =
     (case IQ_request srv (GetApplications org) w of
        (Inl e, t, w') \<Rightarrow> (Inr Map.empty, t, w')
      | (Inr (status_code, b), t, w') \<Rightarrow>
          (case b of
             ApplicationsBody apps \<Rightarrow> (Inr (apps_dict apps), t, w')
           | _ \<Rightarrow> (Inr Map.empty, t, w')))"

text \<open>\<^verbatim>\<open>IQ.create_application\<close> (sync_repos.py lines 111-139).\<close>

definition IQ_create_application ::
  "'w server \<Rightarrow> string \<Rightarrow> string \<Rightarrow> string \<Rightarrow> string \<Rightarrow> (string option, 'w) op" where
  "IQ_create_application srv name repo_url branch org w =
     (case IQ_request srv (PostApplication name org) w of
        (Inl e, t, w') \<Rightarrow> (Inr None, t, w')
      | (Inr (status_code, b), t, w') \<Rightarrow>
          (case b of
             ApplicationBody new_id \<Rightarrow>
               (case IQ_request srv (PostSourceControl new_id repo_url branch) w' of
                  (Inl e, t', w'') \<Rightarrow> (Inr None, t @ t', w'')
                | (Inr r, t', w'') \<Rightarrow> (Inr (Some new_id), t @ t', w''))
           | _ \<Rightarrow> (Inr None, t, w')))"

text \<open>\<^verbatim>\<open>IQ.scan_application\<close> (sync_repos.py lines 141-153).\<close>

definition IQ_scan_application ::
  "'w server \<Rightarrow> string \<Rightarrow> string \<Rightarrow> string \<Rightarrow> (bool, 'w) op" where
  "IQ_scan_application srv app branch stage_id w =
     (case IQ_request srv (PostEvaluation app branch stage_id) w of
        (Inl e, t, w') \<Rightarrow> (Inr False, t, w')
      | (Inr (status_code, b), t, w') \<Rightarrow> (Inr (status_code = 200), t, w'))"

subsection \<open>The source-control client\<close>

text \<open>\<^verbatim>\<open>AzureDevOps.get_projects\<close> (sync_repos.py lines 185-202).\<close>

definition AzureDevOps_get_projects :: "'w server \<Rightarrow> (project list, 'w) op" where
  "AzureDevOps_get_projects srv w =
     (case AzureDevOps_request srv GetProjects w of
        (Inl e, t, w') \<Rightarrow> (Inr [], t, w')
      | (Inr (status_code, b), t, w') \<Rightarrow>
          (case b of
             ProjectsBody projects \<Rightarrow>
               (Inr (map (\<lambda>p. \<lparr>project_id = project_id p, project_name = project_name p,
                               description = description p\<rparr>) projects), t, w')
           | _ \<Rightarrow> (Inr [], t, w')))"

text \<open>\<^verbatim>\<open>AzureDevOps.get_repo_url\<close> (sync_repos.py lines 204-216).\<close>

definition AzureDevOps_get_repo_url :: "'w server \<Rightarrow> string \<Rightarrow> (string option, 'w) op" where
  "AzureDevOps_get_repo_url srv pid w =
     (case AzureDevOps_request srv (GetRepositories pid) w of
        (Inl e, t, w') \<Rightarrow> (Inr None, t, w')
      | (Inr (status_code, b), t, w') \<Rightarrow>
          (case b of
             RepositoriesBody repos_list \<Rightarrow>
               (case repos_list of
                  [] \<Rightarrow> (Inr None, t, w')
                | remoteUrl # rest \<Rightarrow> (Inr remoteUrl, t, w'))
           | _ \<Rightarrow> (Inr None, t, w')))"

text \<open>
  The two client objects held by \<^verbatim>\<open>Sync\<close>, as records of their methods: \<^verbatim>\<open>Sync.sync\<close>
  calls \<^verbatim>\<open>self.azure_devops\<close> and \<^verbatim>\<open>self.iq\<close> through these, and guards the calls with
  handlers for the case that a method raises.
\<close>

record 'w AzureDevOps_client =
  get_projects :: "(project list, 'w) op"
  get_repo_url :: "string \<Rightarrow> (string option, 'w) op"

record 'w IQ_client =
  get_applications :: "string \<Rightarrow> (string \<rightharpoonup> string, 'w) op"
  create_application :: "string \<Rightarrow> string \<Rightarrow> string \<Rightarrow> string \<Rightarrow> (string option, 'w) op"
  scan_application :: "string \<Rightarrow> string \<Rightarrow> string \<Rightarrow> (bool, 'w) op"

definition AzureDevOps :: "'w server \<Rightarrow> 'w AzureDevOps_client" where
  "AzureDevOps srv =
     \<lparr>get_projects = AzureDevOps_get_projects srv, get_repo_url = AzureDevOps_get_repo_url srv\<rparr>"

definition IQ :: "'w server \<Rightarrow> 'w IQ_client" where
  "IQ srv =
     \<lparr>get_applications = IQ_get_applications srv,
      create_application = IQ_create_application srv,
      scan_application = IQ_scan_application srv\<rparr>"

section \<open>The reconciler of sync_repos.py\<close>

record counters =
  created :: int
  scanned :: int
  errors :: int

record 'w Sync =
  config :: "string \<rightharpoonup> string"
  azure_devops :: "'w AzureDevOps_client"
  iq :: "'w IQ_client"

text \<open>
  \<^verbatim>\<open>Sync.__init__\<close> (lines 220-227): the five subscripts \<^verbatim>\<open>config[...]\<close> in the order
  they are evaluated, each raising \<^verbatim>\<open>KeyError\<close> on a missing key; building the two
  sessions sends nothing.
\<close>

definition Sync_init :: "'w server \<Rightarrow> (string \<rightharpoonup> string) \<Rightarrow> exn + 'w Sync" where
  "Sync_init srv cfg =
     (case filter (\<lambda>k. cfg k = None)
             [''AZURE_DEVOPS_ORGANIZATION'', ''AZURE_DEVOPS_TOKEN'', ''IQ_SERVER_URL'',
              ''IQ_USERNAME'', ''IQ_PASSWORD''] of
        k # ks \<Rightarrow> Inl (KeyError k)
      | [] \<Rightarrow> Inr \<lparr>config = cfg, azure_devops = AzureDevOps srv, iq = IQ srv\<rparr>)"

text \<open>
  The fixed literal that starts the marker, \<^verbatim>\<open>f"<label>{chinese_name}"\<close> at line 239:
  the four characters U+6B0A U+8CAC U+90E8 U+9580 followed by the full-width colon
  U+FF1A, in UTF-8.
\<close>

definition marker_label :: string where
  "marker_label =
     [CHR 0xE6, CHR 0xAC, CHR 0x8A, CHR 0xE8, CHR 0xB2, CHR 0xAC, CHR 0xE9, CHR 0x83, CHR 0xA8,
      CHR 0xE9, CHR 0x96, CHR 0x80, CHR 0xEF, CHR 0xBC, CHR 0x9A]"

definition marker :: "string \<Rightarrow> string" where
  "marker chinese_name = marker_label @ chinese_name"

text \<open>Python's \<^verbatim>\<open>needle in hay\<close> on strings.\<close>

fun str_contains :: "string \<Rightarrow> string \<Rightarrow> bool" where
  "str_contains needle [] = (needle = [])"
| "str_contains needle (c # cs) = (prefix needle (c # cs) \<or> str_contains needle cs)"

text \<open>\<^verbatim>\<open>v or ""\<close>\<close>

definition or_empty :: "string option \<Rightarrow> string" where
  "or_empty v = (case v of None \<Rightarrow> [] | Some s \<Rightarrow> if s \<noteq> [] then s else [])"

text \<open>The list comprehension at lines 236-240.\<close>

definition matched_projects :: "string \<Rightarrow> project list \<Rightarrow> project list" where
  "matched_projects chinese_name all_projects =
     filter (\<lambda>p. str_contains (marker chinese_name) (or_empty (description p))) all_projects"

text \<open>
  Lines 278-287, the scan of one application. The subscript \<^verbatim>\<open>self.config["STAGE_ID"]\<close>
  is evaluated before the call. The result is the exception that reaches the handler
  at line 289, if any, with the counters at that moment.
\<close>

definition scan_step ::
  "'w Sync \<Rightarrow> string \<Rightarrow> string \<Rightarrow> counters \<Rightarrow> 'w \<Rightarrow> (exn option \<times> counters) \<times> trace \<times> 'w" where
  "scan_step self app default_branch c w =
     (case config self ''STAGE_ID'' of
        None \<Rightarrow> ((Some (KeyError ''STAGE_ID''), c), [], w)
      | Some stage_id \<Rightarrow>
          (case scan_application (iq self) app default_branch stage_id w of
             (Inl e, t, w1) \<Rightarrow> ((Some e, c), t, w1)
           | (Inr scan_success, t, w1) \<Rightarrow>
               if \<not> scan_success
               then ((None, c\<lparr>errors := errors c + 1\<rparr>), t, w1)
               else ((None, c\<lparr>scanned := scanned c + 1\<rparr>), t, w1)))"

text \<open>Lines 268-276 followed by the scan: the branch taken when \<^verbatim>\<open>not app_id\<close>.\<close>

definition create_step ::
  "'w Sync \<Rightarrow> string \<Rightarrow> string \<Rightarrow> string \<Rightarrow> string \<Rightarrow> counters \<Rightarrow> 'w
     \<Rightarrow> (exn option \<times> counters) \<times> trace \<times> 'w" where
  "create_step self org repo_name clone_url default_branch c w =
     (case create_application (iq self) repo_name clone_url default_branch org w of
        (Inl e, t, w1) \<Rightarrow> ((Some e, c), t, w1)
      | (Inr new_id, t, w1) \<Rightarrow>
          (case new_id of
             None \<Rightarrow> ((None, c\<lparr>errors := errors c + 1\<rparr>), t, w1)
           | Some app \<Rightarrow>
               if app = [] then ((None, c\<lparr>errors := errors c + 1\<rparr>), t, w1)
               else (case scan_step self app default_branch (c\<lparr>created := created c + 1\<rparr>) w1 of
                       (r, t2, w2) \<Rightarrow> (r, t @ t2, w2))))"

text \<open>The body of the \<^verbatim>\<open>try\<close> at lines 264-287.\<close>

definition try_body ::
  "'w Sync \<Rightarrow> string \<Rightarrow> (string \<rightharpoonup> string) \<Rightarrow> string \<Rightarrow> string \<Rightarrow> string \<Rightarrow> counters \<Rightarrow> 'w
     \<Rightarrow> (exn option \<times> counters) \<times> trace \<times> 'w" where
  "try_body self org apps repo_name clone_url default_branch c w =
     (case apps repo_name of
        None \<Rightarrow> create_step self org repo_name clone_url default_branch c w
      | Some app \<Rightarrow>
          if app = [] then create_step self org repo_name clone_url default_branch c w
          else scan_step self app default_branch c w)"

text \<open>
  One iteration of the loop at lines 252-291. \<^verbatim>\<open>get_repo_url\<close> is called outside the
  \<^verbatim>\<open>try\<close>, so an exception from it leaves \<^verbatim>\<open>sync\<close>; an exception inside the \<^verbatim>\<open>try\<close> is
  counted as one error.
\<close>

definition sync_project ::
  "'w Sync \<Rightarrow> string \<Rightarrow> (string \<rightharpoonup> string) \<Rightarrow> string \<Rightarrow> project \<Rightarrow> counters \<Rightarrow> (counters, 'w) op" where
  "sync_project self org apps default_branch p c w =
     (let repo_name = project_name p in
      case get_repo_url (azure_devops self) (project_id p) w of
        (Inl e, t, w1) \<Rightarrow> (Inl e, t, w1)
      | (Inr clone_url, t, w1) \<Rightarrow>
          (case clone_url of
             None \<Rightarrow> (Inr (c\<lparr>errors := errors c + 1\<rparr>), t, w1)
           | Some url \<Rightarrow>
               if url = [] then (Inr (c\<lparr>errors := errors c + 1\<rparr>), t, w1)
               else (case try_body self org apps repo_name url default_branch c w1 of
                       ((None, c2), t2, w2) \<Rightarrow> (Inr c2, t @ t2, w2)
                     | ((Some e, c2), t2, w2) \<Rightarrow>
                         (Inr (c2\<lparr>errors := errors c2 + 1\<rparr>), t @ t2, w2))))"

fun sync_loop ::
  "'w Sync \<Rightarrow> string \<Rightarrow> (string \<rightharpoonup> string) \<Rightarrow> string \<Rightarrow> project list \<Rightarrow> counters \<Rightarrow> (counters, 'w) op" where
  "sync_loop self org apps default_branch [] c w = (Inr c, [], w)"
| "sync_loop self org apps default_branch (p # ps) c w =
     (case sync_project self org apps default_branch p c w of
        (Inl e, t, w1) \<Rightarrow> (Inl e, t, w1)
      | (Inr c1, t, w1) \<Rightarrow>
          (case sync_loop self org apps default_branch ps c1 w1 of
             (r, t2, w2) \<Rightarrow> (r, t @ t2, w2)))"

text \<open>\<^verbatim>\<open>Sync.sync\<close> (lines 229-296).\<close>

definition sync :: "'w Sync \<Rightarrow> string \<Rightarrow> string \<Rightarrow> (counters, 'w) op" where
  "sync self org chinese_name w =
     (case get_projects (azure_devops self) w of
        (Inl e, t, w1) \<Rightarrow> (Inl e, t, w1)
      | (Inr all_projects, t, w1) \<Rightarrow>
          (let matched = matched_projects chinese_name all_projects in
           if matched = [] then (Inr \<lparr>created = 0, scanned = 0, errors = 0\<rparr>, t, w1)
           else
             (case get_applications (iq self) org w1 of
                (Inl e, t2, w2) \<Rightarrow> (Inl e, t @ t2, w2)
              | (Inr apps, t2, w2) \<Rightarrow>
                  (let default_branch =
                         (case config self ''DEFAULT_BRANCH'' of None \<Rightarrow> ''main'' | Some b \<Rightarrow> b) in
                   case sync_loop self org apps default_branch matched
                          \<lparr>created = 0, scanned = 0, errors = 0\<rparr> w2 of
                     (r, t3, w3) \<Rightarrow> (r, t @ t2 @ t3, w3)))))"

section \<open>The run loop of sync_repos.py\<close>

text \<open>
  What a run of a main function shows: the initialization failed (logged, then
  \<^verbatim>\<open>return\<close>), an exception left the function, or the overall summary was logged.
\<close>

datatype 'a run = InitializationFailed exn | Raised exn | Summary 'a

text \<open>The call \<^verbatim>\<open>sync_tool.sync(org["id"], org["chineseName"])\<close> at line 327.\<close>

definition sync_call :: "'w Sync \<Rightarrow> organization \<Rightarrow> (counters, 'w) op" where
  "sync_call sync_tool org w =
     (case org_id org of
        None \<Rightarrow> (Inl (KeyError ''id''), [], w)
      | Some i \<Rightarrow>
          (case chineseName org of
             None \<Rightarrow> (Inl (KeyError ''chineseName''), [], w)
           | Some n \<Rightarrow> sync sync_tool i n w))"

text \<open>\<^verbatim>\<open>for key in total: total[key] += result[key]\<close>\<close>

definition add_counters :: "counters \<Rightarrow> counters \<Rightarrow> counters" where
  "add_counters totals result =
     \<lparr>created = created totals + created result,
      scanned = scanned totals + scanned result,
      errors = errors totals + errors result\<rparr>"

text \<open>
  The loop at lines 324-334. The log line before the \<^verbatim>\<open>try\<close> reads
  \<^verbatim>\<open>org['chineseName']\<close>, whose \<^verbatim>\<open>KeyError\<close> no handler catches.
\<close>

fun sync_orgs :: "'w Sync \<Rightarrow> organization list \<Rightarrow> counters \<Rightarrow> (counters, 'w) op" where
  "sync_orgs sync_tool [] totals w = (Inr totals, [], w)"
| "sync_orgs sync_tool (org # orgs) totals w =
     (case chineseName org of
        None \<Rightarrow> (Inl (KeyError ''chineseName''), [], w)
      | Some n \<Rightarrow>
          (case sync_call sync_tool org w of
             (Inl e, t, w1) \<Rightarrow>
               (case sync_orgs sync_tool orgs (totals\<lparr>errors := errors totals + 1\<rparr>) w1 of
                  (r, t2, w2) \<Rightarrow> (r, t @ t2, w2))
           | (Inr result, t, w1) \<Rightarrow>
               (case sync_orgs sync_tool orgs (add_counters totals result) w1 of
                  (r, t2, w2) \<Rightarrow> (r, t @ t2, w2))))"

text \<open>\<^verbatim>\<open>sync_repos_main\<close> (lines 299-342).\<close>

definition sync_repos_main ::
  "'w server \<Rightarrow> (string \<rightharpoonup> string) \<Rightarrow> bool \<Rightarrow> (string \<Rightarrow> org_file) \<Rightarrow> 'w
     \<Rightarrow> counters run \<times> trace \<times> 'w" where
  "sync_repos_main srv getenv DEBUG fs w =
     (case load_config getenv of
        Inl e \<Rightarrow> (InitializationFailed e, [], w)
      | Inr cfg \<Rightarrow>
          (case load_organizations DEBUG fs of
             Inl e \<Rightarrow> (InitializationFailed e, [], w)
           | Inr orgs \<Rightarrow>
               (case Sync_init srv cfg of
                  Inl e \<Rightarrow> (InitializationFailed e, [], w)
                | Inr sync_tool \<Rightarrow>
                    (case sync_orgs sync_tool orgs \<lparr>created = 0, scanned = 0, errors = 0\<rparr> w of
                       (Inl e, t, w1) \<Rightarrow> (Raised e, t, w1)
                     | (Inr totals, t, w1) \<Rightarrow> (Summary totals, t, w1)))))"

section \<open>cleanup_tool.py\<close>

text \<open>\<^verbatim>\<open>IQ.get_applications\<close> of cleanup_tool.py (lines 85-97): a list, in listing order.\<close>

definition cleanup_IQ_get_applications :: "'w server \<Rightarrow> string \<Rightarrow> (application list, 'w) op" where
  "cleanup_IQ_get_applications srv org w =
     (case IQ_request srv (GetApplications org) w of
        (Inl e, t, w1) \<Rightarrow> (Inr [], t, w1)
      | (Inr (status_code, b), t, w1) \<Rightarrow>
          (case b of
             ApplicationsBody apps \<Rightarrow>
               (Inr (map (\<lambda>a. \<lparr>app_name = app_name a, app_id = app_id a\<rparr>) apps), t, w1)
           | _ \<Rightarrow> (Inr [], t, w1)))"

text \<open>\<^verbatim>\<open>IQ.delete_application\<close> (lines 99-106).\<close>

definition IQ_delete_application :: "'w server \<Rightarrow> string \<Rightarrow> (bool, 'w) op" where
  "IQ_delete_application srv app w =
     (case IQ_request srv (DeleteApplication app) w of
        (Inl e, t, w1) \<Rightarrow> (Inr False, t, w1)
      | (Inr (status_code, b), t, w1) \<Rightarrow> (Inr (status_code = 204), t, w1))"

record 'w cleanup_IQ_client =
  list_applications :: "string \<Rightarrow> (application list, 'w) op"
  delete_application :: "string \<Rightarrow> (bool, 'w) op"

definition cleanup_IQ :: "'w server \<Rightarrow> 'w cleanup_IQ_client" where
  "cleanup_IQ srv =
     \<lparr>list_applications = cleanup_IQ_get_applications srv,
      delete_application = IQ_delete_application srv\<rparr>"

record cleanup_counters =
  deleted :: int
  cleanup_errors :: int

record 'w Cleanup =
  cleanup_config :: "string \<rightharpoonup> string"
  cleanup_iq :: "'w cleanup_IQ_client"

text \<open>\<^verbatim>\<open>Cleanup.__init__\<close> (lines 117-121).\<close>

definition Cleanup_init :: "'w server \<Rightarrow> (string \<rightharpoonup> string) \<Rightarrow> exn + 'w Cleanup" where
  "Cleanup_init srv cfg =
     (case filter (\<lambda>k. cfg k = None) [''IQ_SERVER_URL'', ''IQ_USERNAME'', ''IQ_PASSWORD''] of
        k # ks \<Rightarrow> Inl (KeyError k)
      | [] \<Rightarrow> Inr \<lparr>cleanup_config = cfg, cleanup_iq = cleanup_IQ srv\<rparr>)"

text \<open>The loop at lines 133-143: one deletion attempt per application, each under its own handler.\<close>

fun cleanup_loop ::
  "'w Cleanup \<Rightarrow> application list \<Rightarrow> cleanup_counters \<Rightarrow> 'w \<Rightarrow> cleanup_counters \<times> trace \<times> 'w" where
  "cleanup_loop self [] c w = (c, [], w)"
| "cleanup_loop self (app # apps) c w =
     (case delete_application (cleanup_iq self) (app_id app) w of
        (Inl e, t, w1) \<Rightarrow>
          (case cleanup_loop self apps (c\<lparr>cleanup_errors := cleanup_errors c + 1\<rparr>) w1 of
             (r, t2, w2) \<Rightarrow> (r, t @ t2, w2))
      | (Inr ok, t, w1) \<Rightarrow>
          (if ok
           then (case cleanup_loop self apps (c\<lparr>deleted := deleted c + 1\<rparr>) w1 of
                   (r, t2, w2) \<Rightarrow> (r, t @ t2, w2))
           else (case cleanup_loop self apps (c\<lparr>cleanup_errors := cleanup_errors c + 1\<rparr>) w1 of
                   (r, t2, w2) \<Rightarrow> (r, t @ t2, w2))))"

text \<open>\<^verbatim>\<open>Cleanup.cleanup\<close> (lines 123-148).\<close>

definition cleanup :: "'w Cleanup \<Rightarrow> string \<Rightarrow> string \<Rightarrow> (cleanup_counters, 'w) op" where
  "cleanup self org chinese_name w =
     (case list_applications (cleanup_iq self) org w of
        (Inl e, t, w1) \<Rightarrow> (Inl e, t, w1)
      | (Inr apps, t, w1) \<Rightarrow>
          if apps = [] then (Inr \<lparr>deleted = 0, cleanup_errors = 0\<rparr>, t, w1)
          else (case cleanup_loop self apps \<lparr>deleted = 0, cleanup_errors = 0\<rparr> w1 of
                  (c, t2, w2) \<Rightarrow> (Inr c, t @ t2, w2)))"

text \<open>The call \<^verbatim>\<open>cleanup_tool.cleanup(org["id"], org["chineseName"])\<close> at line 181.\<close>

definition cleanup_call :: "'w Cleanup \<Rightarrow> organization \<Rightarrow> (cleanup_counters, 'w) op" where
  "cleanup_call cleanup_tool org w =
     (case org_id org of
        None \<Rightarrow> (Inl (KeyError ''id''), [], w)
      | Some i \<Rightarrow>
          (case chineseName org of
             None \<Rightarrow> (Inl (KeyError ''chineseName''), [], w)
           | Some n \<Rightarrow> cleanup cleanup_tool i n w))"

definition add_cleanup_counters :: "cleanup_counters \<Rightarrow> cleanup_counters \<Rightarrow> cleanup_counters" where
  "add_cleanup_counters totals result =
     \<lparr>deleted = deleted totals + deleted result,
      cleanup_errors = cleanup_errors totals + cleanup_errors result\<rparr>"

text \<open>The loop at lines 176-188.\<close>

fun cleanup_orgs ::
  "'w Cleanup \<Rightarrow> organization list \<Rightarrow> cleanup_counters \<Rightarrow> (cleanup_counters, 'w) op" where
  "cleanup_orgs cleanup_tool [] totals w = (Inr totals, [], w)"
| "cleanup_orgs cleanup_tool (org # orgs) totals w =
     (case chineseName org of
        None \<Rightarrow> (Inl (KeyError ''chineseName''), [], w)
      | Some n \<Rightarrow>
          (case cleanup_call cleanup_tool org w of
             (Inl e, t, w1) \<Rightarrow>
               (case cleanup_orgs cleanup_tool orgs
                       (totals\<lparr>cleanup_errors := cleanup_errors totals + 1\<rparr>) w1 of
                  (r, t2, w2) \<Rightarrow> (r, t @ t2, w2))
           | (Inr result, t, w1) \<Rightarrow>
               (case cleanup_orgs cleanup_tool orgs (add_cleanup_counters totals result) w1 of
                  (r, t2, w2) \<Rightarrow> (r, t @ t2, w2))))"

text \<open>\<^verbatim>\<open>cleanup_main\<close> (lines 151-196).\<close>

definition cleanup_main ::
  "'w server \<Rightarrow> (string \<rightharpoonup> string) \<Rightarrow> bool \<Rightarrow> (string \<Rightarrow> org_file) \<Rightarrow> 'w
     \<Rightarrow> cleanup_counters run \<times> trace \<times> 'w" where
  "cleanup_main srv getenv DEBUG fs w =
     (case cleanup_load_config getenv of
        Inl e \<Rightarrow> (InitializationFailed e, [], w)
      | Inr cfg \<Rightarrow>
          (case cleanup_load_organizations DEBUG fs of
             Inl e \<Rightarrow> (InitializationFailed e, [], w)
           | Inr orgs \<Rightarrow>
               (case Cleanup_init srv cfg of
                  Inl e \<Rightarrow> (InitializationFailed e, [], w)
                | Inr cleanup_tool \<Rightarrow>
                    (case cleanup_orgs cleanup_tool orgs \<lparr>deleted = 0, cleanup_errors = 0\<rparr> w of
                       (Inl e, t, w1) \<Rightarrow> (Raised e, t, w1)
                     | (Inr totals, t, w1) \<Rightarrow> (Summary totals, t, w1)))))"

section \<open>Concrete inputs\<close>

text \<open>An organization file with two loadable records and two that lack a field.\<close>

definition example_orgs :: "organization list" where
  "example_orgs =
     [\<lparr>org_id = Some ''42'', chineseName = Some ''Alpha''\<rparr>,
      \<lparr>org_id = Some '''', chineseName = Some ''Beta''\<rparr>,
      \<lparr>org_id = Some ''7'', chineseName = None\<rparr>,
      \<lparr>org_id = Some ''43'', chineseName = Some ''Gamma''\<rparr>]"

definition example_valid_orgs :: "organization list" where
  "example_valid_orgs =
     [\<lparr>org_id = Some ''42'', chineseName = Some ''Alpha''\<rparr>,
      \<lparr>org_id = Some ''43'', chineseName = Some ''Gamma''\<rparr>]"

definition example_fs :: "organization list \<Rightarrow> string \<Rightarrow> org_file" where
  "example_fs orgs path = (if path = ''config/org-azure.json'' then OrgList orgs else FileMissing)"

text \<open>
  A server that replays a script: the world is the list of answers still to give, one
  per request in the order the requests arrive; an exhausted script refuses connections.
\<close>

fun replay :: "http_result list server" where
  "replay c [] = (ConnectionFailed, [])"
| "replay c (r # rs) = (r, rs)"

definition example_env :: "string \<rightharpoonup> string" where
  "example_env =
     [''AZURE_DEVOPS_TOKEN'' \<mapsto> ''token'', ''AZURE_DEVOPS_ORGANIZATION'' \<mapsto> ''contoso'',
      ''IQ_SERVER_URL'' \<mapsto> ''https://iq.example/'', ''IQ_USERNAME'' \<mapsto> ''admin'',
      ''IQ_PASSWORD'' \<mapsto> ''secret'']"

definition example_invalid_orgs :: "organization list" where
  "example_invalid_orgs =
     [\<lparr>org_id = Some '''', chineseName = Some ''Beta''\<rparr>,
      \<lparr>org_id = Some ''7'', chineseName = None\<rparr>]"

text \<open>
  The specification's wording of a match: the project has a description, and the
  description contains the marker (the fixed label followed by the display name) as a
  contiguous run of characters.
\<close>

definition has_marker :: "string \<Rightarrow> project \<Rightarrow> bool" where
  "has_marker chinese_name p =
     (\<exists>d pre post. description p = Some d \<and> d = pre @ marker_label @ chinese_name @ post)"

text \<open>
  Five projects: one marked for Alpha inside a longer description, one marked for Beta,
  one without description, one whose marker differs in the case of a letter, and one
  that names Alpha after another label.
\<close>

definition example_projects :: "project list" where
  "example_projects =
     [\<lparr>project_id = ''p1'', project_name = ''billing'',
        description = Some (''Owner '' @ marker_label @ ''Alpha; internal'')\<rparr>,
      \<lparr>project_id = ''p2'', project_name = ''portal'',
        description = Some (marker_label @ ''Beta'')\<rparr>,
      \<lparr>project_id = ''p3'', project_name = ''legacy'', description = None\<rparr>,
      \<lparr>project_id = ''p4'', project_name = ''tools'',
        description = Some (marker_label @ ''alpha'')\<rparr>,
      \<lparr>project_id = ''p5'', project_name = ''docs'',
        description = Some ('': Alpha'')\<rparr>]"

text \<open>
  One iteration of the project loop leaves exactly one mark: either \<open>scanned\<close> grows by
  one and \<open>errors\<close> stays, or \<open>errors\<close> grows by one and \<open>scanned\<close> stays.
\<close>

definition one_outcome :: "counters \<Rightarrow> counters \<Rightarrow> bool" where
  "one_outcome c c' =
     ((scanned c' = scanned c + 1 \<and> errors c' = errors c) \<or>
      (scanned c' = scanned c \<and> errors c' = errors c + 1))"

text \<open>
  A run for organization 42, Alpha. The host lists four projects, three of them marked
  for Alpha; the scan server already knows \<open>shop\<close>. \<open>billing\<close> is created, bound and
  scanned; the scan of \<open>shop\<close> is refused with status 500; \<open>mail\<close> has no repository.
\<close>

definition example_config :: "string \<rightharpoonup> string" where
  "example_config = [''DEFAULT_BRANCH'' \<mapsto> ''main'', ''STAGE_ID'' \<mapsto> ''source'']"

definition example_sync :: "http_result list Sync" where
  "example_sync = \<lparr>config = example_config, azure_devops = AzureDevOps replay, iq = IQ replay\<rparr>"

definition alpha_projects :: "project list" where
  "alpha_projects =
     [\<lparr>project_id = ''p1'', project_name = ''billing'',
        description = Some (marker_label @ ''Alpha'')\<rparr>,
      \<lparr>project_id = ''p2'', project_name = ''portal'',
        description = Some (marker_label @ ''Beta'')\<rparr>,
      \<lparr>project_id = ''p3'', project_name = ''shop'',
        description = Some (marker_label @ ''Alpha'')\<rparr>,
      \<lparr>project_id = ''p4'', project_name = ''mail'',
        description = Some (marker_label @ ''Alpha'')\<rparr>]"

definition alpha_script :: "http_result list" where
  "alpha_script =
     [Response 200 (ProjectsBody alpha_projects),
      Response 200 (ApplicationsBody [\<lparr>app_name = ''shop'', app_id = ''a7''\<rparr>]),
      Response 200 (RepositoriesBody [Some ''u1'']),
      Response 200 (ApplicationBody ''a1''),
      Response 200 OtherBody,
      Response 200 OtherBody,
      Response 200 (RepositoriesBody [Some ''u3'']),
      Response 500 OtherBody,
      Response 200 (RepositoriesBody [])]"

section \<open>Outcomes of the individual attempts\<close>

text \<open>
  A deletion attempt fails when \<^verbatim>\<open>delete_application\<close> returns false or raises.
\<close>

definition failed_attempt :: "exn + bool \<Rightarrow> bool" where
  "failed_attempt r = (case r of Inl e \<Rightarrow> True | Inr ok \<Rightarrow> \<not> ok)"

text \<open>
  The outcome of each deletion attempt when the applications are deleted one after the
  other, starting in world \<open>w\<close>.
\<close>

fun delete_results :: "'w Cleanup \<Rightarrow> application list \<Rightarrow> 'w \<Rightarrow> (exn + bool) list" where
  "delete_results self [] w = []"
| "delete_results self (app # apps) w =
     (case delete_application (cleanup_iq self) (app_id app) w of
        (r, t, w1) \<Rightarrow> r # delete_results self apps w1)"

text \<open>
  The outcome of each per-organization call when the organizations are processed one
  after the other, starting in world \<open>w\<close>.
\<close>

fun sync_results :: "'w Sync \<Rightarrow> organization list \<Rightarrow> 'w \<Rightarrow> (exn + counters) list" where
  "sync_results sync_tool [] w = []"
| "sync_results sync_tool (org # orgs) w =
     (case sync_call sync_tool org w of (r, t, w1) \<Rightarrow> r # sync_results sync_tool orgs w1)"

fun cleanup_results ::
  "'w Cleanup \<Rightarrow> organization list \<Rightarrow> 'w \<Rightarrow> (exn + cleanup_counters) list" where
  "cleanup_results cleanup_tool [] w = []"
| "cleanup_results cleanup_tool (org # orgs) w =
     (case cleanup_call cleanup_tool org w of
        (r, t, w1) \<Rightarrow> r # cleanup_results cleanup_tool orgs w1)"

text \<open>
  A cleanup of organization 42 with three applications, the second of which the server
  refuses to delete; and the listing for a second run, of Gamma, where the application
  listing cannot be reached and the only project has no repository.
\<close>

definition example_cleanup :: "http_result list Cleanup" where
  "example_cleanup = \<lparr>cleanup_config = Map.empty, cleanup_iq = cleanup_IQ replay\<rparr>"

definition three_apps :: "application list" where
  "three_apps =
     [\<lparr>app_name = ''billing'', app_id = ''a1''\<rparr>,
      \<lparr>app_name = ''shop'', app_id = ''a7''\<rparr>,
      \<lparr>app_name = ''mail'', app_id = ''a9''\<rparr>]"

definition cleanup_script :: "http_result list" where
  "cleanup_script =
     [Response 200 (ApplicationsBody three_apps),
      Response 204 OtherBody, Response 404 OtherBody, Response 204 OtherBody]"

definition gamma_projects :: "project list" where
  "gamma_projects =
     [\<lparr>project_id = ''p9'', project_name = ''wiki'',
        description = Some (marker_label @ ''Gamma'')\<rparr>]"

definition gamma_script :: "http_result list" where
  "gamma_script =
     [Response 200 (ProjectsBody gamma_projects), ConnectionFailed,
      Response 200 (RepositoriesBody [])]"

text \<open>
  Three of the projects above on their own, and a run in which the scan server lists
  \<open>billing\<close> with an empty id and \<open>mail\<close> with id a9, while \<open>mail\<close> has no repository.
\<close>

definition billing :: project where
  "billing = \<lparr>project_id = ''p1'', project_name = ''billing'',
               description = Some (marker_label @ ''Alpha'')\<rparr>"

definition shop :: project where
  "shop = \<lparr>project_id = ''p3'', project_name = ''shop'',
            description = Some (marker_label @ ''Alpha'')\<rparr>"

definition mail :: project where
  "mail = \<lparr>project_id = ''p4'', project_name = ''mail'',
            description = Some (marker_label @ ''Alpha'')\<rparr>"

definition listed_apps :: "application list" where
  "listed_apps = [\<lparr>app_name = ''billing'', app_id = ''''\<rparr>, \<lparr>app_name = ''mail'', app_id = ''a9''\<rparr>]"

definition listed_script :: "http_result list" where
  "listed_script =
     [Response 200 (ProjectsBody [billing, mail]),
      Response 200 (ApplicationsBody listed_apps),
      Response 200 (RepositoriesBody [Some ''u1'']),
      Response 200 (ApplicationBody ''a1''),
      Response 200 OtherBody,
      Response 200 OtherBody,
      Response 200 (RepositoriesBody [])]"

text \<open>
  The project ids of the repository lookups in a trace, in order: one for each project
  the loop of \<^verbatim>\<open>Sync.sync\<close> processes.
\<close>

definition repository_lookups :: "trace \<Rightarrow> string list" where
  "repository_lookups t =
     concat (map (\<lambda>(c, answer). case c of GetRepositories pid \<Rightarrow> [pid] | _ \<Rightarrow> []) t)"

text \<open>
  The application listing of the Alpha run, the only project of the Gamma run, and a
  Gamma run in which the application listing cannot be reached while the project has a
  repository.
\<close>

definition shop_listing :: "application list" where
  "shop_listing = [\<lparr>app_name = ''shop'', app_id = ''a7''\<rparr>]"

definition wiki :: project where
  "wiki = \<lparr>project_id = ''p9'', project_name = ''wiki'',
            description = Some (marker_label @ ''Gamma'')\<rparr>"

definition gamma_url_script :: "http_result list" where
  "gamma_url_script =
     [Response 200 (ProjectsBody gamma_projects), ConnectionFailed,
      Response 200 (RepositoriesBody [Some ''u9'']),
      Response 200 (ApplicationBody ''a5''),
      Response 200 OtherBody,
      Response 200 OtherBody]"

section \<open>Verified properties\<close>

subsection \<open>Loading organizations\<close>

lemma truthy_iff: "truthy v = has_nonempty v"
  by (cases v) (auto simp: truthy_def has_nonempty_def)

lemma valid_filter:
  "filter (\<lambda>org. truthy (org_id org) \<and> truthy (chineseName org)) orgs = filter spec_valid_org orgs"
  by (rule filter_cong) (simp_all add: truthy_iff spec_valid_org_def)

text \<open>
  Claim C8. \<^verbatim>\<open>load_organizations\<close> keeps exactly the records that have both a non-empty
  id and a non-empty display name, in the order of the file: whenever it returns, the
  loaded list is the input filtered by that condition, and it raises only when no record
  qualifies. For an input made only of such records the loaded list is the input itself,
  so it has the same size and order. Both tools load with the same function.
\<close>

theorem load_organizations_keeps_valid:
  assumes "fs (org_file_name DEBUG) = OrgList orgs"
  shows "(case load_organizations DEBUG fs of
            Inr loaded \<Rightarrow> loaded = filter spec_valid_org orgs
          | Inl e \<Rightarrow> filter spec_valid_org orgs = []) \<and>
         ((\<forall>org \<in> set orgs. spec_valid_org org) \<longrightarrow>
            (case load_organizations DEBUG fs of
               Inr loaded \<Rightarrow> loaded = orgs \<and> length loaded = length orgs
             | Inl e \<Rightarrow> orgs = [])) \<and>
         cleanup_load_organizations DEBUG fs = load_organizations DEBUG fs"
proof -
  have eq: "cleanup_load_organizations DEBUG fs = load_organizations DEBUG fs"
    by (simp add: cleanup_load_organizations_def load_organizations_def)
  have sel: "(case load_organizations DEBUG fs of
            Inr loaded \<Rightarrow> loaded = filter spec_valid_org orgs
          | Inl e \<Rightarrow> filter spec_valid_org orgs = [])"
    using assms by (simp add: load_organizations_def Let_def valid_filter)
  have all: "(\<forall>org \<in> set orgs. spec_valid_org org) \<longrightarrow> filter spec_valid_org orgs = orgs"
    by (simp add: filter_id_conv)
  show ?thesis using eq sel all by (auto split: sum.splits)
qed

theorem load_organizations_keeps_valid_witness:
  "example_fs example_valid_orgs (org_file_name False) = OrgList example_valid_orgs \<and>
   list_all spec_valid_org example_valid_orgs \<and>
   load_organizations False (example_fs example_valid_orgs) = Inr example_valid_orgs \<and>
   cleanup_load_organizations False (example_fs example_valid_orgs) = Inr example_valid_orgs \<and>
   example_fs example_orgs (org_file_name False) = OrgList example_orgs \<and>
   load_organizations False (example_fs example_orgs) = Inr example_valid_orgs"
proof -
  have f1: "example_fs example_valid_orgs (org_file_name False) = OrgList example_valid_orgs"
    by (simp add: example_fs_def org_file_name_def)
  have f2: "example_fs example_orgs (org_file_name False) = OrgList example_orgs"
    by (simp add: example_fs_def org_file_name_def)
  have v: "\<forall>org \<in> set example_valid_orgs. spec_valid_org org"
    by (simp add: example_valid_orgs_def spec_valid_org_def has_nonempty_def)
  have ne: "example_valid_orgs \<noteq> []"
    by (simp add: example_valid_orgs_def)
  have sel: "filter spec_valid_org example_orgs = example_valid_orgs"
    by (simp add: example_orgs_def example_valid_orgs_def spec_valid_org_def has_nonempty_def)
  show ?thesis
    using load_organizations_keeps_valid [of "example_fs example_valid_orgs" False example_valid_orgs]
      load_organizations_keeps_valid [of "example_fs example_orgs" False example_orgs]
      f1 f2 v ne sel
    by (auto simp: list_all_iff split: sum.splits)
qed

lemma no_valid_raises:
  assumes "fs (org_file_name DEBUG) = OrgList orgs"
    and "orgs = [] \<or> (\<forall>org \<in> set orgs. \<not> spec_valid_org org)"
  shows "load_organizations DEBUG fs =
           Inl (ValueError ''No valid organizations found in configuration'')"
proof -
  from assms(2) have "filter spec_valid_org orgs = []"
    by (auto simp: filter_empty_conv)
  with assms(1) show ?thesis
    by (simp add: load_organizations_def Let_def valid_filter)
qed

text \<open>
  Claim C6. When the organization list is empty or holds only records that lack a
  non-empty id or a non-empty display name, \<^verbatim>\<open>load_organizations\<close> raises, the main
  function of either tool ends with the initialization failure, and it has sent no
  request: its trace is empty and the outside world is unchanged.
\<close>

theorem no_valid_organization_fails_initialization:
  assumes "fs (org_file_name DEBUG) = OrgList orgs"
    and "orgs = [] \<or> (\<forall>org \<in> set orgs. \<not> spec_valid_org org)"
  shows "load_organizations DEBUG fs =
           Inl (ValueError ''No valid organizations found in configuration'') \<and>
         (\<exists>e. sync_repos_main srv getenv DEBUG fs w = (InitializationFailed e, [], w)) \<and>
         cleanup_load_organizations DEBUG fs =
           Inl (ValueError ''No valid organizations found in configuration'') \<and>
         (\<exists>e. cleanup_main srv getenv DEBUG fs w = (InitializationFailed e, [], w))"
proof -
  have l: "load_organizations DEBUG fs =
           Inl (ValueError ''No valid organizations found in configuration'')"
    using assms by (rule no_valid_raises)
  have lc: "cleanup_load_organizations DEBUG fs =
           Inl (ValueError ''No valid organizations found in configuration'')"
    using l by (simp add: cleanup_load_organizations_def load_organizations_def)
  have m: "\<exists>e. sync_repos_main srv getenv DEBUG fs w = (InitializationFailed e, [], w)"
    by (cases "load_config getenv") (simp_all add: sync_repos_main_def l)
  have mc: "\<exists>e. cleanup_main srv getenv DEBUG fs w = (InitializationFailed e, [], w)"
    by (cases "cleanup_load_config getenv") (simp_all add: cleanup_main_def lc)
  show ?thesis using l lc m mc by simp
qed

theorem no_valid_organization_fails_initialization_witness:
  "example_fs example_invalid_orgs (org_file_name False) = OrgList example_invalid_orgs \<and>
   list_all (\<lambda>org. \<not> spec_valid_org org) example_invalid_orgs \<and>
   sync_repos_main replay example_env False (example_fs example_invalid_orgs) [] =
     (InitializationFailed (ValueError ''No valid organizations found in configuration''), [], []) \<and>
   cleanup_main replay example_env False (example_fs example_invalid_orgs) [] =
     (InitializationFailed (ValueError ''No valid organizations found in configuration''), [], [])"
proof -
  have f: "example_fs example_invalid_orgs (org_file_name False) = OrgList example_invalid_orgs"
    by (simp add: example_fs_def org_file_name_def)
  have v: "\<forall>org \<in> set example_invalid_orgs. \<not> spec_valid_org org"
    by (simp add: example_invalid_orgs_def spec_valid_org_def has_nonempty_def)
  have c: "\<exists>cfg. load_config example_env = Inr cfg"
    by (simp add: load_config_def example_env_def required_keys_def truthy_def)
  have cc: "\<exists>cfg. cleanup_load_config example_env = Inr cfg"
    by (simp add: cleanup_load_config_def example_env_def cleanup_required_keys_def truthy_def)
  have d: "example_invalid_orgs = [] \<or> (\<forall>org \<in> set example_invalid_orgs. \<not> spec_valid_org org)"
    using v by simp
  show ?thesis
    using no_valid_organization_fails_initialization
      [where fs = "example_fs example_invalid_orgs" and DEBUG = False
         and orgs = example_invalid_orgs and srv = replay and getenv = example_env
         and w = "[]", OF f d] f v c cc
    by (auto simp: list_all_iff sync_repos_main_def cleanup_main_def)
qed

subsection \<open>Matching projects to an organization\<close>

lemma str_contains_sublist: "str_contains needle hay = sublist needle hay"
  by (induction hay) (simp_all add: sublist_Cons_right)

lemma str_contains_iff: "str_contains needle hay = (\<exists>pre post. hay = pre @ needle @ post)"
  by (simp add: str_contains_sublist sublist_def)

lemma marker_nonempty: "marker chinese_name \<noteq> []"
  by (simp add: marker_def marker_label_def)

lemma marker_in_description:
  "str_contains (marker chinese_name) (or_empty (description p)) = has_marker chinese_name p"
proof (cases "description p")
  case None
  then show ?thesis
    by (simp add: or_empty_def has_marker_def marker_nonempty)
next
  case (Some d)
  show ?thesis
  proof (cases "d = []")
    case True
    with Some show ?thesis
      by (simp add: or_empty_def has_marker_def marker_nonempty marker_def marker_label_def)
  next
    case False
    with Some show ?thesis
      by (simp add: or_empty_def has_marker_def str_contains_iff marker_def)
  qed
qed

subsection \<open>Creating an application\<close>

lemma IQ_request_trace:
  "IQ_request srv c w = (r, t, w') \<Longrightarrow> map fst t = [c]"
  by (auto simp: IQ_request_def split: prod.splits http_result.splits if_splits)

text \<open>
  Claim C7. \<^verbatim>\<open>create_application\<close> never raises. If the creation POST raises, or if it
  returns and the source-control POST that follows raises, the result is \<^verbatim>\<open>None\<close>; an id
  is returned only when both requests returned. Whatever happens, the requests sent are
  the creation POST and at most the binding POST: no DELETE is ever sent.
\<close>

theorem create_application_all_or_nothing:
  assumes "IQ_create_application srv name repo_url branch org w = (res, t, w')"
  shows "(\<exists>v. res = Inr v) \<and>
         ((\<exists>e. fst (IQ_request srv (PostApplication name org) w) = Inl e) \<longrightarrow>
            res = Inr None \<and> map fst t = [PostApplication name org]) \<and>
         (\<forall>status new_id t1 w1.
            IQ_request srv (PostApplication name org) w =
              (Inr (status, ApplicationBody new_id), t1, w1) \<and>
            (\<exists>e. fst (IQ_request srv (PostSourceControl new_id repo_url branch) w1) = Inl e) \<longrightarrow>
            res = Inr None \<and>
            map fst t = [PostApplication name org, PostSourceControl new_id repo_url branch]) \<and>
         (\<forall>new_id. res = Inr (Some new_id) \<longrightarrow>
            (\<exists>status t1 w1 r2 t2.
               IQ_request srv (PostApplication name org) w =
                 (Inr (status, ApplicationBody new_id), t1, w1) \<and>
               IQ_request srv (PostSourceControl new_id repo_url branch) w1 = (Inr r2, t2, w') \<and>
               t = t1 @ t2)) \<and>
         (\<forall>c \<in> set (map fst t). \<forall>a. c \<noteq> DeleteApplication a)"
proof -
  obtain r1 t1 w1 where first: "IQ_request srv (PostApplication name org) w = (r1, t1, w1)"
    by (cases "IQ_request srv (PostApplication name org) w")
  have tr1: "map fst t1 = [PostApplication name org]"
    using first by (rule IQ_request_trace)
  show ?thesis
  proof (cases r1)
    case (Inl e)
    with assms first have "res = Inr None" and "t = t1"
      by (auto simp: IQ_create_application_def)
    with first tr1 Inl show ?thesis by simp
  next
    case (Inr sb)
    obtain status b where sb: "sb = (status, b)" by (cases sb)
    show ?thesis
    proof (cases "\<exists>new_id. b = ApplicationBody new_id")
      case False
      with assms first Inr sb have "res = Inr None" and "t = t1"
        by (cases b; auto simp: IQ_create_application_def)+
      with first tr1 Inr sb False show ?thesis by simp
    next
      case True
      then obtain new_id where b: "b = ApplicationBody new_id" by blast
      obtain r2 t2 w2 where second:
        "IQ_request srv (PostSourceControl new_id repo_url branch) w1 = (r2, t2, w2)"
        by (cases "IQ_request srv (PostSourceControl new_id repo_url branch) w1")
      have tr2: "map fst t2 = [PostSourceControl new_id repo_url branch]"
        using second by (rule IQ_request_trace)
      have t: "t = t1 @ t2" and w: "w' = w2"
        using assms first Inr sb b second
        by (auto simp: IQ_create_application_def split: sum.splits)
      have res: "res = (case r2 of Inl e \<Rightarrow> Inr None | Inr r \<Rightarrow> Inr (Some new_id))"
        using assms first Inr sb b second
        by (auto simp: IQ_create_application_def split: sum.splits)
      have calls: "map fst t = [PostApplication name org, PostSourceControl new_id repo_url branch]"
        using t tr1 tr2 by simp
      then have nodel: "\<forall>c \<in> set (map fst t). \<forall>a. c \<noteq> DeleteApplication a"
        by simp
      show ?thesis
        using first Inr sb b second t w res calls nodel
        by (cases r2) auto
    qed
  qed
qed

theorem create_application_all_or_nothing_witness:
  "IQ_create_application replay ''billing'' ''https://host/billing'' ''main'' ''42''
     [Response 200 (ApplicationBody ''a1''), Response 500 OtherBody] =
     (Inr None,
      [(PostApplication ''billing'' ''42'', Response 200 (ApplicationBody ''a1'')),
       (PostSourceControl ''a1'' ''https://host/billing'' ''main'', Response 500 OtherBody)],
      []) \<and>
   IQ_request replay (PostApplication ''billing'' ''42'')
     [Response 200 (ApplicationBody ''a1''), Response 500 OtherBody] =
     (Inr (200, ApplicationBody ''a1''),
      [(PostApplication ''billing'' ''42'', Response 200 (ApplicationBody ''a1''))],
      [Response 500 OtherBody]) \<and>
   fst (IQ_request replay (PostSourceControl ''a1'' ''https://host/billing'' ''main'')
          [Response 500 OtherBody]) = Inl (HTTPError 500)"
proof -
  have run: "IQ_create_application replay ''billing'' ''https://host/billing'' ''main'' ''42''
     [Response 200 (ApplicationBody ''a1''), Response 500 OtherBody] =
     (Inr None,
      [(PostApplication ''billing'' ''42'', Response 200 (ApplicationBody ''a1'')),
       (PostSourceControl ''a1'' ''https://host/billing'' ''main'', Response 500 OtherBody)],
      [])"
    by (simp add: IQ_create_application_def IQ_request_def)
  show ?thesis
    using create_application_all_or_nothing [OF run] run
    by (simp add: IQ_request_def)
qed

subsection \<open>Counting in the reconciler\<close>

lemma scan_step_counts:
  assumes "scan_step self app br c w = ((eo, c'), t, w')"
  shows "created c' = created c \<and>
         (case eo of None \<Rightarrow> one_outcome c c'
          | Some e \<Rightarrow> scanned c' = scanned c \<and> errors c' = errors c)"
  using assms
  by (auto simp: scan_step_def one_outcome_def split: option.splits prod.splits sum.splits if_splits)

lemma create_step_counts:
  assumes "create_step self org name url br c w = ((eo, c'), t, w')"
  shows "created c \<le> created c' \<and> created c' \<le> created c + 1 \<and>
         (case eo of None \<Rightarrow> one_outcome c c'
          | Some e \<Rightarrow> scanned c' = scanned c \<and> errors c' = errors c)"
proof (cases "create_application (iq self) name url br org w")
  case (fields r t1 w1)
  show ?thesis
  proof (cases r)
    case (Inl e)
    with fields assms show ?thesis by (auto simp: create_step_def)
  next
    case (Inr new_id)
    show ?thesis
    proof (cases "\<exists>app. new_id = Some app \<and> app \<noteq> []")
      case False
      with fields Inr assms show ?thesis
        by (cases new_id) (auto simp: create_step_def one_outcome_def)
    next
      case True
      then obtain app where app: "new_id = Some app" "app \<noteq> []" by blast
      obtain eo2 c2 t2 w2 where s:
        "scan_step self app br (c\<lparr>created := created c + 1\<rparr>) w1 = ((eo2, c2), t2, w2)"
        by (metis prod.exhaust)
      from scan_step_counts [OF s] fields Inr app s assms show ?thesis
        by (auto simp: create_step_def one_outcome_def split: option.splits)
    qed
  qed
qed

lemma try_body_counts:
  assumes "try_body self org apps name url br c w = ((eo, c'), t, w')"
  shows "created c \<le> created c' \<and> created c' \<le> created c + 1 \<and>
         (case eo of None \<Rightarrow> one_outcome c c'
          | Some e \<Rightarrow> scanned c' = scanned c \<and> errors c' = errors c)"
proof (cases "\<exists>app. apps name = Some app \<and> app \<noteq> []")
  case True
  then obtain app where "apps name = Some app" "app \<noteq> []" by blast
  with assms have "scan_step self app br c w = ((eo, c'), t, w')"
    by (simp add: try_body_def)
  from scan_step_counts [OF this] show ?thesis by simp
next
  case False
  with assms have "create_step self org name url br c w = ((eo, c'), t, w')"
    by (cases "apps name") (auto simp: try_body_def)
  then show ?thesis by (rule create_step_counts)
qed

lemma sync_project_counts:
  assumes "sync_project self org apps br p c w = (Inr c', t, w')"
  shows "created c \<le> created c' \<and> created c' \<le> created c + 1 \<and> one_outcome c c'"
proof (cases "get_repo_url (azure_devops self) (project_id p) w")
  case (fields r t1 w1)
  show ?thesis
  proof (cases r)
    case (Inl e)
    with fields assms show ?thesis by (simp add: sync_project_def)
  next
    case (Inr clone_url)
    show ?thesis
    proof (cases "\<exists>url. clone_url = Some url \<and> url \<noteq> []")
      case False
      with fields Inr assms show ?thesis
        by (cases clone_url) (auto simp: sync_project_def one_outcome_def)
    next
      case True
      then obtain url where url: "clone_url = Some url" "url \<noteq> []" by blast
      obtain eo c2 t2 w2 where b:
        "try_body self org apps (project_name p) url br c w1 = ((eo, c2), t2, w2)"
        by (metis prod.exhaust)
      from try_body_counts [OF b] fields Inr url b assms show ?thesis
        by (cases eo) (auto simp: sync_project_def one_outcome_def)
    qed
  qed
qed

lemma sync_loop_counts:
  assumes "sync_loop self org apps br ps c w = (Inr c', t, w')"
  shows "scanned c' + errors c' = scanned c + errors c + int (length ps) \<and>
         scanned c \<le> scanned c' \<and> errors c \<le> errors c' \<and>
         created c \<le> created c' \<and> created c' \<le> created c + int (length ps)"
  using assms
proof (induction ps arbitrary: c t w w')
  case Nil
  then show ?case by simp
next
  case (Cons p ps)
  obtain r t1 w1 where sp: "sync_project self org apps br p c w = (r, t1, w1)"
    by (metis prod.exhaust)
  show ?case
  proof (cases r)
    case (Inl e)
    with sp Cons.prems show ?thesis by simp
  next
    case (Inr c1)
    obtain r2 t2 w2 where sl: "sync_loop self org apps br ps c1 w1 = (r2, t2, w2)"
      by (metis prod.exhaust)
    with sp Inr Cons.prems have "r2 = Inr c'" by simp
    with sl have "sync_loop self org apps br ps c1 w1 = (Inr c', t2, w2)" by simp
    from Cons.IH [OF this] sync_project_counts [OF sp [unfolded Inr]]
    show ?thesis by (auto simp: one_outcome_def)
  qed
qed

text \<open>
  Claim C9. When \<^verbatim>\<open>Sync.sync\<close> returns, \<open>scanned + errors\<close> is the number of matched
  projects, \<open>created\<close> is at most that number, and no counter is negative. Every
  iteration of the project loop that completes adds one to exactly one of \<open>scanned\<close> and
  \<open>errors\<close> (missing repository URL, failed creation, scan outcome, or the handler of
  the iteration) and at most one to \<open>created\<close>.
\<close>

theorem sync_counts_every_matched_project:
  assumes "sync self org chinese_name w = (Inr c, t, w')"
  shows "(\<exists>all_projects t1 w1.
            get_projects (azure_devops self) w = (Inr all_projects, t1, w1) \<and>
            scanned c + errors c = int (length (matched_projects chinese_name all_projects)) \<and>
            created c \<le> int (length (matched_projects chinese_name all_projects))) \<and>
         0 \<le> created c \<and> 0 \<le> scanned c \<and> 0 \<le> errors c \<and>
         (\<forall>apps br p c0 w0 c1 t1 w1.
            sync_project self org apps br p c0 w0 = (Inr c1, t1, w1) \<longrightarrow>
            one_outcome c0 c1 \<and> created c0 \<le> created c1 \<and> created c1 \<le> created c0 + 1)"
proof -
  have step: "\<forall>apps br p c0 w0 c1 t1 w1.
            sync_project self org apps br p c0 w0 = (Inr c1, t1, w1) \<longrightarrow>
            one_outcome c0 c1 \<and> created c0 \<le> created c1 \<and> created c1 \<le> created c0 + 1"
  proof (intro allI impI)
    fix apps br p c0 w0 c1 t1 w1
    assume h: "sync_project self org apps br p c0 w0 = (Inr c1, t1, w1)"
    from sync_project_counts [OF h]
    show "one_outcome c0 c1 \<and> created c0 \<le> created c1 \<and> created c1 \<le> created c0 + 1"
      by simp
  qed
  have total: "(\<exists>all_projects t1 w1.
            get_projects (azure_devops self) w = (Inr all_projects, t1, w1) \<and>
            scanned c + errors c = int (length (matched_projects chinese_name all_projects)) \<and>
            created c \<le> int (length (matched_projects chinese_name all_projects))) \<and>
         0 \<le> created c \<and> 0 \<le> scanned c \<and> 0 \<le> errors c"
  proof (cases "get_projects (azure_devops self) w")
    case (fields r t1 w1)
    show ?thesis
    proof (cases r)
      case (Inl e)
      with fields assms show ?thesis by (simp add: sync_def)
    next
      case (Inr all_projects)
      let ?m = "matched_projects chinese_name all_projects"
      show ?thesis
      proof (cases "?m = []")
        case True
        with fields Inr assms show ?thesis by (auto simp: sync_def)
      next
        case False
        obtain r2 t2 w2 where ga: "get_applications (iq self) org w1 = (r2, t2, w2)"
          by (metis prod.exhaust)
        show ?thesis
        proof (cases r2)
          case (Inl e)
          with fields Inr False ga assms show ?thesis by (simp add: sync_def)
        next
          case (Inr apps)
          let ?br = "case config self ''DEFAULT_BRANCH'' of None \<Rightarrow> ''main'' | Some b \<Rightarrow> b"
          obtain r3 t3 w3 where sl:
            "sync_loop self org apps ?br ?m \<lparr>created = 0, scanned = 0, errors = 0\<rparr> w2
               = (r3, t3, w3)"
            by (metis prod.exhaust)
          with fields \<open>r = Inr all_projects\<close> False ga Inr assms have "r3 = Inr c"
            by (simp add: sync_def Let_def)
          with sl have
            "sync_loop self org apps ?br ?m \<lparr>created = 0, scanned = 0, errors = 0\<rparr> w2
               = (Inr c, t3, w3)" by simp
          from sync_loop_counts [OF this] fields \<open>r = Inr all_projects\<close> show ?thesis by simp
        qed
      qed
    qed
  qed
  show ?thesis using total step by blast
qed

subsection \<open>A concrete run\<close>

lemma alpha_matched:
  "matched_projects ''Alpha'' alpha_projects =
     [\<lparr>project_id = ''p1'', project_name = ''billing'', description = Some (marker_label @ ''Alpha'')\<rparr>,
      \<lparr>project_id = ''p3'', project_name = ''shop'', description = Some (marker_label @ ''Alpha'')\<rparr>,
      \<lparr>project_id = ''p4'', project_name = ''mail'', description = Some (marker_label @ ''Alpha'')\<rparr>]"
  by (simp add: matched_projects_def alpha_projects_def marker_def marker_label_def or_empty_def)

lemma project_copy:
  "map (\<lambda>p::project. \<lparr>project_id = project_id p, project_name = project_name p,
          description = description p\<rparr>) ps = ps"
  by (induction ps) simp_all

lemma application_copy:
  "map (\<lambda>a::application. \<lparr>app_name = app_name a, app_id = app_id a\<rparr>) apps = apps"
  by (induction apps) simp_all

lemmas client_defs =
  AzureDevOps_def IQ_def AzureDevOps_get_projects_def AzureDevOps_get_repo_url_def
  AzureDevOps_request_def IQ_request_def IQ_get_applications_def IQ_create_application_def
  IQ_scan_application_def

lemma alpha_run:
  "sync example_sync ''42'' ''Alpha'' (alpha_script @ rest) =
     (Inr \<lparr>created = 1, scanned = 1, errors = 2\<rparr>,
      [(GetProjects, Response 200 (ProjectsBody alpha_projects)),
       (GetApplications ''42'',
        Response 200 (ApplicationsBody [\<lparr>app_name = ''shop'', app_id = ''a7''\<rparr>])),
       (GetRepositories ''p1'', Response 200 (RepositoriesBody [Some ''u1''])),
       (PostApplication ''billing'' ''42'', Response 200 (ApplicationBody ''a1'')),
       (PostSourceControl ''a1'' ''u1'' ''main'', Response 200 OtherBody),
       (PostEvaluation ''a1'' ''main'' ''source'', Response 200 OtherBody),
       (GetRepositories ''p3'', Response 200 (RepositoriesBody [Some ''u3''])),
       (PostEvaluation ''a7'' ''main'' ''source'', Response 500 OtherBody),
       (GetRepositories ''p4'', Response 200 (RepositoriesBody []))],
      rest)"
proof -
  have gp: "get_projects (azure_devops example_sync) (alpha_script @ rest) =
      (Inr alpha_projects, [(GetProjects, Response 200 (ProjectsBody alpha_projects))],
       tl alpha_script @ rest)"
    by (simp add: example_sync_def client_defs alpha_script_def project_copy)
  show ?thesis
    unfolding sync_def gp
    by (simp add: alpha_matched Let_def)
       (simp add: example_sync_def example_config_def client_defs alpha_script_def apps_dict_def
          sync_project_def try_body_def create_step_def scan_step_def Let_def)
qed

theorem sync_counts_every_matched_project_witness:
  "fst (sync example_sync ''42'' ''Alpha'' alpha_script) =
     Inr \<lparr>created = 1, scanned = 1, errors = 2\<rparr> \<and>
   int (length (matched_projects ''Alpha'' alpha_projects)) = 1 + 2"
  using sync_counts_every_matched_project [OF alpha_run [of "[]", unfolded append_Nil2]]
    alpha_run [of "[]", unfolded append_Nil2]
  by (simp add: alpha_matched)

subsection \<open>Cleanup of one organization\<close>

lemma delete_results_length: "length (delete_results self apps w) = length apps"
  by (induction apps arbitrary: w) (auto split: prod.splits)

lemma cleanup_loop_counts:
  assumes "cleanup_loop self apps c w = (c', t, w')"
  shows "deleted c' =
     deleted c + int (length (filter (\<lambda>r. \<not> failed_attempt r) (delete_results self apps w))) \<and>
   cleanup_errors c' =
     cleanup_errors c + int (length (filter failed_attempt (delete_results self apps w)))"
  using assms
proof (induction apps arbitrary: c w c' t w')
  case Nil
  then show ?case by simp
next
  case (Cons app apps)
  obtain r t1 w1 where d: "delete_application (cleanup_iq self) (app_id app) w = (r, t1, w1)"
    by (metis prod.exhaust)
  let ?c1 = "if failed_attempt r then c\<lparr>cleanup_errors := cleanup_errors c + 1\<rparr>
             else c\<lparr>deleted := deleted c + 1\<rparr>"
  obtain c2 t2 w2 where l: "cleanup_loop self apps ?c1 w1 = (c2, t2, w2)"
    by (metis prod.exhaust)
  have "c2 = c'"
    using Cons.prems d l
    by (cases r) (auto simp: failed_attempt_def split: if_splits)
  with l have "cleanup_loop self apps ?c1 w1 = (c', t2, w2)" by simp
  from Cons.IH [OF this] d show ?case
    by (simp add: failed_attempt_def split: sum.splits if_splits)
qed

lemma filter_split_length:
  "int (length (filter (\<lambda>r. \<not> P r) xs)) = int (length xs) - int (length (filter P xs))"
  using sum_length_filter_compl [of P xs] by simp

lemma IQ_request_calls: "map fst (fst (snd (IQ_request srv c w))) = [c]"
  by (auto simp: IQ_request_def split: prod.splits http_result.splits)

lemma cleanup_loop_calls:
  assumes "cleanup_iq self = cleanup_IQ srv"
    and "cleanup_loop self apps c w = (c', t, w')"
  shows "map fst t = map (\<lambda>a. DeleteApplication (app_id a)) apps"
  using assms(2)
proof (induction apps arbitrary: c w c' t w')
  case Nil
  then show ?case by simp
next
  case (Cons app apps)
  obtain r t1 w1 where d: "delete_application (cleanup_iq self) (app_id app) w = (r, t1, w1)"
    by (metis prod.exhaust)
  have "IQ_delete_application srv (app_id app) w = (r, t1, w1)"
    using d assms(1) by (simp add: cleanup_IQ_def)
  then have t1: "map fst t1 = [DeleteApplication (app_id app)]"
    using IQ_request_calls [of srv "DeleteApplication (app_id app)" w]
    by (auto simp: IQ_delete_application_def split: prod.splits sum.splits)
  let ?c1 = "if failed_attempt r then c\<lparr>cleanup_errors := cleanup_errors c + 1\<rparr>
             else c\<lparr>deleted := deleted c + 1\<rparr>"
  obtain c2 t2 w2 where l: "cleanup_loop self apps ?c1 w1 = (c2, t2, w2)"
    by (metis prod.exhaust)
  have "t = t1 @ t2"
    using Cons.prems d l
    by (cases r) (auto simp: failed_attempt_def split: if_splits)
  with Cons.IH [OF l] t1 show ?case by simp
qed

text \<open>
  Claim C4. When the listing of an organization returns N applications,
  \<^verbatim>\<open>Cleanup.cleanup\<close> returns \<open>deleted = N - K\<close> and \<open>errors = K\<close>, where K is the number
  of deletion attempts that return false or raise. There is one attempt per application,
  whatever the earlier attempts gave; with the client of the tool, the requests sent are
  the listing followed by one DELETE per application, in listing order.
\<close>

theorem cleanup_counts_every_application:
  assumes "list_applications (cleanup_iq self) org w = (Inr apps, t1, w1)"
  shows "fst (cleanup self org chinese_name w) =
           Inr \<lparr>deleted = int (length apps)
                   - int (length (filter failed_attempt (delete_results self apps w1))),
                cleanup_errors = int (length (filter failed_attempt (delete_results self apps w1)))\<rparr> \<and>
         length (delete_results self apps w1) = length apps \<and>
         (cleanup_iq self = cleanup_IQ srv \<longrightarrow>
            map fst (fst (snd (cleanup self org chinese_name w))) =
              GetApplications org # map (\<lambda>a. DeleteApplication (app_id a)) apps)"
proof -
  have counts: "fst (cleanup self org chinese_name w) =
           Inr \<lparr>deleted = int (length apps)
                   - int (length (filter failed_attempt (delete_results self apps w1))),
                cleanup_errors = int (length (filter failed_attempt (delete_results self apps w1)))\<rparr>"
  proof (cases "apps = []")
    case True
    with assms show ?thesis by (simp add: cleanup_def)
  next
    case False
    obtain c t2 w2 where l:
      "cleanup_loop self apps \<lparr>deleted = 0, cleanup_errors = 0\<rparr> w1 = (c, t2, w2)"
      by (metis prod.exhaust)
    from cleanup_loop_counts [OF l]
    have "deleted c = int (length apps)
                   - int (length (filter failed_attempt (delete_results self apps w1)))"
      and "cleanup_errors c = int (length (filter failed_attempt (delete_results self apps w1)))"
      by (simp_all add: filter_split_length delete_results_length)
    then have "c = \<lparr>deleted = int (length apps)
                   - int (length (filter failed_attempt (delete_results self apps w1))),
                cleanup_errors = int (length (filter failed_attempt (delete_results self apps w1)))\<rparr>"
      by simp
    with assms False l show ?thesis by (simp add: cleanup_def)
  qed
  have calls: "cleanup_iq self = cleanup_IQ srv \<longrightarrow>
            map fst (fst (snd (cleanup self org chinese_name w))) =
              GetApplications org # map (\<lambda>a. DeleteApplication (app_id a)) apps"
  proof
    assume real: "cleanup_iq self = cleanup_IQ srv"
    with assms have "cleanup_IQ_get_applications srv org w = (Inr apps, t1, w1)"
      by (simp add: cleanup_IQ_def)
    then have t1: "map fst t1 = [GetApplications org]"
      using IQ_request_calls [of srv "GetApplications org" w]
      by (auto simp: cleanup_IQ_get_applications_def split: prod.splits sum.splits body.splits)
    show "map fst (fst (snd (cleanup self org chinese_name w))) =
              GetApplications org # map (\<lambda>a. DeleteApplication (app_id a)) apps"
    proof (cases "apps = []")
      case True
      with assms t1 show ?thesis by (simp add: cleanup_def)
    next
      case False
      obtain c t2 w2 where l:
        "cleanup_loop self apps \<lparr>deleted = 0, cleanup_errors = 0\<rparr> w1 = (c, t2, w2)"
        by (metis prod.exhaust)
      with assms t1 False cleanup_loop_calls [OF real l]
      show ?thesis by (simp add: cleanup_def)
    qed
  qed
  show ?thesis by (intro conjI counts calls delete_results_length)
qed

lemmas cleanup_client_defs =
  cleanup_IQ_def cleanup_IQ_get_applications_def IQ_delete_application_def IQ_request_def

theorem cleanup_counts_every_application_witness:
  "list_applications (cleanup_iq example_cleanup) ''42'' cleanup_script =
     (Inr three_apps, [(GetApplications ''42'', Response 200 (ApplicationsBody three_apps))],
      [Response 204 OtherBody, Response 404 OtherBody, Response 204 OtherBody]) \<and>
   delete_results example_cleanup three_apps
     [Response 204 OtherBody, Response 404 OtherBody, Response 204 OtherBody] =
     [Inr True, Inr False, Inr True] \<and>
   fst (cleanup example_cleanup ''42'' ''Alpha'' cleanup_script) =
     Inr \<lparr>deleted = 2, cleanup_errors = 1\<rparr> \<and>
   map fst (fst (snd (cleanup example_cleanup ''42'' ''Alpha'' cleanup_script))) =
     [GetApplications ''42'', DeleteApplication ''a1'', DeleteApplication ''a7'',
      DeleteApplication ''a9'']"
proof -
  have la: "list_applications (cleanup_iq example_cleanup) ''42'' cleanup_script =
     (Inr three_apps, [(GetApplications ''42'', Response 200 (ApplicationsBody three_apps))],
      [Response 204 OtherBody, Response 404 OtherBody, Response 204 OtherBody])"
    by (simp add: example_cleanup_def cleanup_client_defs cleanup_script_def application_copy)
  have dr: "delete_results example_cleanup three_apps
     [Response 204 OtherBody, Response 404 OtherBody, Response 204 OtherBody] =
     [Inr True, Inr False, Inr True]"
    by (simp add: example_cleanup_def cleanup_client_defs three_apps_def)
  have real: "cleanup_iq example_cleanup = cleanup_IQ replay"
    by (simp add: example_cleanup_def)
  show ?thesis
    using cleanup_counts_every_application [OF la, of "''Alpha''" replay] la dr real
    by (simp add: failed_attempt_def three_apps_def)
qed

subsection \<open>Aggregation over organizations\<close>

lemma sync_orgs_sum:
  assumes "sync_results sync_tool orgs w = map Inr rs"
  shows "fst (sync_orgs sync_tool orgs totals w) =
           Inr \<lparr>created = created totals + sum_list (map created rs),
                scanned = scanned totals + sum_list (map scanned rs),
                errors = errors totals + sum_list (map errors rs)\<rparr>"
  using assms
proof (induction orgs arbitrary: totals w rs)
  case Nil
  then show ?case by simp
next
  case (Cons org orgs)
  obtain r t w1 where sc: "sync_call sync_tool org w = (r, t, w1)"
    by (metis prod.exhaust)
  with Cons.prems obtain result rs' where rs: "rs = result # rs'" "r = Inr result"
    and rest: "sync_results sync_tool orgs w1 = map Inr rs'"
    by (cases rs) auto
  have name: "chineseName org \<noteq> None"
    using sc rs by (auto simp: sync_call_def split: option.splits)
  obtain r2 t2 w2 where l:
    "sync_orgs sync_tool orgs (add_counters totals result) w1 = (r2, t2, w2)"
    by (metis prod.exhaust)
  from Cons.IH [OF rest, of "add_counters totals result"] l
  have "r2 = Inr \<lparr>created = created (add_counters totals result) + sum_list (map created rs'),
                scanned = scanned (add_counters totals result) + sum_list (map scanned rs'),
                errors = errors (add_counters totals result) + sum_list (map errors rs')\<rparr>"
    by simp
  with sc rs name l show ?case
    by (auto simp: add_counters_def)
qed

lemma cleanup_orgs_sum:
  assumes "cleanup_results cleanup_tool orgs w = map Inr rs"
  shows "fst (cleanup_orgs cleanup_tool orgs totals w) =
           Inr \<lparr>deleted = deleted totals + sum_list (map deleted rs),
                cleanup_errors = cleanup_errors totals + sum_list (map cleanup_errors rs)\<rparr>"
  using assms
proof (induction orgs arbitrary: totals w rs)
  case Nil
  then show ?case by simp
next
  case (Cons org orgs)
  obtain r t w1 where sc: "cleanup_call cleanup_tool org w = (r, t, w1)"
    by (metis prod.exhaust)
  with Cons.prems obtain result rs' where rs: "rs = result # rs'" "r = Inr result"
    and rest: "cleanup_results cleanup_tool orgs w1 = map Inr rs'"
    by (cases rs) auto
  have name: "chineseName org \<noteq> None"
    using sc rs by (auto simp: cleanup_call_def split: option.splits)
  obtain r2 t2 w2 where l:
    "cleanup_orgs cleanup_tool orgs (add_cleanup_counters totals result) w1 = (r2, t2, w2)"
    by (metis prod.exhaust)
  from Cons.IH [OF rest, of "add_cleanup_counters totals result"] l
  have "r2 = Inr \<lparr>deleted = deleted (add_cleanup_counters totals result) + sum_list (map deleted rs'),
                cleanup_errors = cleanup_errors (add_cleanup_counters totals result)
                   + sum_list (map cleanup_errors rs')\<rparr>"
    by simp
  with sc rs name l show ?case
    by (auto simp: add_cleanup_counters_def)
qed

text \<open>
  Claim C5. When every per-organization call of a run returns a result (none raises),
  the total the run loop reports is, field by field, the sum of the per-organization
  results: \<open>created\<close>, \<open>scanned\<close>, \<open>errors\<close> for the sync tool and \<open>deleted\<close>, \<open>errors\<close>
  for the cleanup tool. Nothing is assumed about the error counts of the results.
\<close>

theorem totals_are_fieldwise_sums:
  "(sync_results sync_tool orgs w = map Inr rs \<longrightarrow>
      fst (sync_orgs sync_tool orgs \<lparr>created = 0, scanned = 0, errors = 0\<rparr> w) =
        Inr \<lparr>created = sum_list (map created rs), scanned = sum_list (map scanned rs),
             errors = sum_list (map errors rs)\<rparr>) \<and>
   (cleanup_results cleanup_tool orgs' w' = map Inr rs' \<longrightarrow>
      fst (cleanup_orgs cleanup_tool orgs' \<lparr>deleted = 0, cleanup_errors = 0\<rparr> w') =
        Inr \<lparr>deleted = sum_list (map deleted rs'),
             cleanup_errors = sum_list (map cleanup_errors rs')\<rparr>)"
  using sync_orgs_sum [of sync_tool orgs w rs "\<lparr>created = 0, scanned = 0, errors = 0\<rparr>"]
    cleanup_orgs_sum [of cleanup_tool orgs' w' rs' "\<lparr>deleted = 0, cleanup_errors = 0\<rparr>"]
  by simp

lemma gamma_run:
  "sync example_sync ''43'' ''Gamma'' gamma_script =
     (Inr \<lparr>created = 0, scanned = 0, errors = 1\<rparr>,
      [(GetProjects, Response 200 (ProjectsBody gamma_projects)),
       (GetApplications ''43'', ConnectionFailed),
       (GetRepositories ''p9'', Response 200 (RepositoriesBody []))],
      [])"
proof -
  have gp: "get_projects (azure_devops example_sync) gamma_script =
      (Inr gamma_projects, [(GetProjects, Response 200 (ProjectsBody gamma_projects))],
       tl gamma_script)"
    by (simp add: example_sync_def client_defs gamma_script_def project_copy)
  have m: "matched_projects ''Gamma'' gamma_projects = gamma_projects"
    by (simp add: matched_projects_def gamma_projects_def marker_def marker_label_def or_empty_def)
  show ?thesis
    unfolding sync_def gp
    by (simp add: m Let_def)
       (simp add: example_sync_def example_config_def client_defs gamma_script_def gamma_projects_def
          sync_project_def try_body_def create_step_def scan_step_def Let_def)
qed

theorem totals_are_fieldwise_sums_witness:
  "sync_results example_sync example_valid_orgs (alpha_script @ gamma_script) =
     map Inr [\<lparr>created = 1, scanned = 1, errors = 2\<rparr>, \<lparr>created = 0, scanned = 0, errors = 1\<rparr>] \<and>
   fst (sync_orgs example_sync example_valid_orgs \<lparr>created = 0, scanned = 0, errors = 0\<rparr>
          (alpha_script @ gamma_script)) =
     Inr \<lparr>created = 1, scanned = 1, errors = 3\<rparr> \<and>
   cleanup_results example_cleanup example_valid_orgs
     (cleanup_script @ [Response 200 (ApplicationsBody [])]) =
     map Inr [\<lparr>deleted = 2, cleanup_errors = 1\<rparr>, \<lparr>deleted = 0, cleanup_errors = 0\<rparr>] \<and>
   fst (cleanup_orgs example_cleanup example_valid_orgs \<lparr>deleted = 0, cleanup_errors = 0\<rparr>
          (cleanup_script @ [Response 200 (ApplicationsBody [])])) =
     Inr \<lparr>deleted = 2, cleanup_errors = 1\<rparr>"
proof -
  have sr: "sync_results example_sync example_valid_orgs (alpha_script @ gamma_script) =
     map Inr [\<lparr>created = 1, scanned = 1, errors = 2\<rparr>, \<lparr>created = 0, scanned = 0, errors = 1\<rparr>]"
    by (simp add: example_valid_orgs_def sync_call_def alpha_run gamma_run)
  have cr: "cleanup_results example_cleanup example_valid_orgs
     (cleanup_script @ [Response 200 (ApplicationsBody [])]) =
     map Inr [\<lparr>deleted = 2, cleanup_errors = 1\<rparr>, \<lparr>deleted = 0, cleanup_errors = 0\<rparr>]"
    by (simp add: example_valid_orgs_def cleanup_call_def cleanup_def example_cleanup_def
          cleanup_client_defs cleanup_script_def three_apps_def)
  show ?thesis
    using totals_are_fieldwise_sums
      [of example_sync example_valid_orgs "alpha_script @ gamma_script"
          "[\<lparr>created = 1, scanned = 1, errors = 2\<rparr>, \<lparr>created = 0, scanned = 0, errors = 1\<rparr>]"
          example_cleanup example_valid_orgs
          "cleanup_script @ [Response 200 (ApplicationsBody [])]"
          "[\<lparr>deleted = 2, cleanup_errors = 1\<rparr>, \<lparr>deleted = 0, cleanup_errors = 0\<rparr>]"]
      sr cr
    by simp
qed

subsection \<open>One project of the loop, with the clients of the tool\<close>

text \<open>
  \<^verbatim>\<open>Sync.sync\<close> runs \<open>sync_project\<close> once for every matched project, in order, each
  iteration starting in the world the previous one left (\<open>sync_loop\<close>). The statements
  below are about one such iteration, for a \<^verbatim>\<open>Sync\<close> object whose scan-server client is
  the one \<^verbatim>\<open>Sync.__init__\<close> builds and whose configuration has a stage id, which holds
  for every object \<^verbatim>\<open>sync_repos_main\<close> builds from a loaded configuration.
\<close>

lemma main_sync_tool:
  assumes "load_config getenv = Inr cfg"
  shows "\<exists>self stage. Sync_init srv cfg = Inr self \<and> iq self = IQ srv \<and>
           azure_devops self = AzureDevOps srv \<and> config self ''STAGE_ID'' = Some stage"
proof -
  have m: "filter (\<lambda>k. \<not> truthy (getenv k)) required_keys = []"
    using assms by (simp add: load_config_def Let_def split: if_splits)
  have cfg: "cfg = (getenv |` set required_keys)
                  (''DEFAULT_BRANCH'' \<mapsto> getenv_default getenv ''DEFAULT_BRANCH'' ''main'',
                   ''STAGE_ID'' \<mapsto> getenv_default getenv ''STAGE_ID'' ''source'')"
    using assms m by (simp add: load_config_def Let_def)
  have all: "\<forall>k \<in> set required_keys. truthy (getenv k)"
    using m by (simp add: filter_empty_conv)
  have some: "cfg k \<noteq> None" if "k \<in> set required_keys" for k
  proof -
    from all that have "truthy (getenv k)" by blast
    then have "getenv k \<noteq> None" by (cases "getenv k") (simp_all add: truthy_def)
    with that show ?thesis unfolding cfg by (simp add: restrict_map_def)
  qed
  have keys: "set [''AZURE_DEVOPS_ORGANIZATION'', ''AZURE_DEVOPS_TOKEN'', ''IQ_SERVER_URL'',
              ''IQ_USERNAME'', ''IQ_PASSWORD''] \<subseteq> set required_keys"
    by (simp add: required_keys_def)
  have f: "filter (\<lambda>k. cfg k = None)
             [''AZURE_DEVOPS_ORGANIZATION'', ''AZURE_DEVOPS_TOKEN'', ''IQ_SERVER_URL'',
              ''IQ_USERNAME'', ''IQ_PASSWORD''] = []"
    unfolding filter_empty_conv using some keys by blast
  have st: "cfg ''STAGE_ID'' = Some (getenv_default getenv ''STAGE_ID'' ''source'')"
    unfolding cfg by simp
  show ?thesis using f st by (simp add: Sync_init_def)
qed

lemma IQ_request_event:
  "\<exists>r ans w'. IQ_request srv c w = (r, [(c, ans)], w')"
  by (auto simp: IQ_request_def split: prod.splits http_result.splits)

lemma scan_real:
  "\<exists>ok ans w'. IQ_scan_application srv app br stage w =
      (Inr ok, [(PostEvaluation app br stage, ans)], w')"
proof -
  obtain r ans w' where "IQ_request srv (PostEvaluation app br stage) w =
      (r, [(PostEvaluation app br stage, ans)], w')"
    using IQ_request_event [of srv "PostEvaluation app br stage" w] by auto
  then show ?thesis
    by (cases r) (auto simp: IQ_scan_application_def)
qed

lemma create_real:
  "\<exists>v ans rest w'. IQ_create_application srv name url br org w =
      (Inr v, (PostApplication name org, ans) # rest, w')"
proof -
  obtain r ans w1 where first: "IQ_request srv (PostApplication name org) w =
      (r, [(PostApplication name org, ans)], w1)"
    using IQ_request_event [of srv "PostApplication name org" w] by auto
  show ?thesis
  proof (cases r)
    case (Inl e)
    with first show ?thesis by (simp add: IQ_create_application_def)
  next
    case (Inr sb)
    obtain status b where sb: "sb = (status, b)" by (cases sb)
    show ?thesis
    proof (cases b)
      case (ApplicationBody new_id)
      obtain r2 ans2 w2 where "IQ_request srv (PostSourceControl new_id url br) w1 =
          (r2, [(PostSourceControl new_id url br, ans2)], w2)"
        using IQ_request_event [of srv "PostSourceControl new_id url br" w1] by auto
      with first Inr sb ApplicationBody show ?thesis
        by (cases r2) (auto simp: IQ_create_application_def)
    qed (use first Inr sb in \<open>auto simp: IQ_create_application_def\<close>)
  qed
qed

lemma scan_step_real:
  assumes "iq self = IQ srv" and "config self ''STAGE_ID'' = Some stage"
  shows "\<exists>ok ans w'.
           IQ_scan_application srv app br stage w =
             (Inr ok, [(PostEvaluation app br stage, ans)], w') \<and>
           scan_step self app br c w =
             ((None, if ok then c\<lparr>scanned := scanned c + 1\<rparr> else c\<lparr>errors := errors c + 1\<rparr>),
              [(PostEvaluation app br stage, ans)], w')"
proof -
  obtain ok ans w' where s: "IQ_scan_application srv app br stage w =
      (Inr ok, [(PostEvaluation app br stage, ans)], w')"
    using scan_real [of srv app br stage w] by auto
  with assms have "scan_step self app br c w =
             ((None, if ok then c\<lparr>scanned := scanned c + 1\<rparr> else c\<lparr>errors := errors c + 1\<rparr>),
              [(PostEvaluation app br stage, ans)], w')"
    by (simp add: scan_step_def IQ_def)
  with s show ?thesis by blast
qed

lemma repo_real:
  "\<exists>r ans w'. AzureDevOps_get_repo_url srv pid w = (Inr r, [(GetRepositories pid, ans)], w')"
  by (auto simp: AzureDevOps_get_repo_url_def AzureDevOps_request_def
      split: prod.splits http_result.splits body.splits list.splits)

lemmas loop_defs = sync_project_def try_body_def create_step_def scan_step_def

lemma example_sync_iq: "iq example_sync = IQ replay"
  by (simp add: example_sync_def)

lemma example_sync_azure: "azure_devops example_sync = AzureDevOps replay"
  by (simp add: example_sync_def)

lemma example_sync_stage: "config example_sync ''STAGE_ID'' = Some ''source''"
  by (simp add: example_sync_def example_config_def)

text \<open>
  The iteration for a project that has a repository URL and whose name the mapping does
  not hold: the creation POST is sent; without an id the iteration adds one to \<open>errors\<close>
  and sends nothing more; with an id the scan POST follows, \<open>created\<close> grows by one and
  exactly one of \<open>scanned\<close> and \<open>errors\<close> grows by one.
\<close>

lemma iteration_creates_then_scans:
  assumes iq: "iq self = IQ srv"
    and stage: "config self ''STAGE_ID'' = Some stage"
    and url: "get_repo_url (azure_devops self) (project_id p) w = (Inr (Some url), t1, w1)"
             "url \<noteq> []"
    and new: "apps (project_name p) = None"
    and cr: "create_application (iq self) (project_name p) url br org w1 = (Inr new_id, t2, w2)"
  shows "(\<exists>ans rest. t2 = (PostApplication (project_name p) org, ans) # rest) \<and>
         (\<not> truthy new_id \<longrightarrow>
            sync_project self org apps br p c w = (Inr (c\<lparr>errors := errors c + 1\<rparr>), t1 @ t2, w2)) \<and>
         (\<forall>app. new_id = Some app \<and> app \<noteq> [] \<longrightarrow>
            (\<exists>ok ans w3.
               scan_application (iq self) app br stage w2 =
                 (Inr ok, [(PostEvaluation app br stage, ans)], w3) \<and>
               sync_project self org apps br p c w =
                 (Inr (if ok then c\<lparr>created := created c + 1, scanned := scanned c + 1\<rparr>
                       else c\<lparr>created := created c + 1, errors := errors c + 1\<rparr>),
                  t1 @ t2 @ [(PostEvaluation app br stage, ans)], w3)))"
proof (intro conjI allI impI)
  from cr iq create_real [of srv "project_name p" url br org w1]
  show "\<exists>ans rest. t2 = (PostApplication (project_name p) org, ans) # rest"
    by (auto simp: IQ_def)
next
  assume "\<not> truthy new_id"
  then have f: "new_id = None \<or> new_id = Some []"
    by (cases new_id) (auto simp: truthy_def)
  with url new cr
  show "sync_project self org apps br p c w = (Inr (c\<lparr>errors := errors c + 1\<rparr>), t1 @ t2, w2)"
    by (auto simp: sync_project_def try_body_def create_step_def)
next
  fix app
  assume a: "new_id = Some app \<and> app \<noteq> []"
  from scan_step_real [OF iq stage, where app = app and br = br
         and c = "c\<lparr>created := created c + 1\<rparr>" and w = w2]
  obtain ok ans w3 where s: "IQ_scan_application srv app br stage w2 =
             (Inr ok, [(PostEvaluation app br stage, ans)], w3)"
    and ss: "scan_step self app br (c\<lparr>created := created c + 1\<rparr>) w2 =
             ((None, if ok then c\<lparr>created := created c + 1, scanned := scanned c + 1\<rparr>
                     else c\<lparr>created := created c + 1, errors := errors c + 1\<rparr>),
              [(PostEvaluation app br stage, ans)], w3)"
    by auto
  have "sync_project self org apps br p c w =
                 (Inr (if ok then c\<lparr>created := created c + 1, scanned := scanned c + 1\<rparr>
                       else c\<lparr>created := created c + 1, errors := errors c + 1\<rparr>),
                  t1 @ t2 @ [(PostEvaluation app br stage, ans)], w3)"
    using url new cr a ss
    by (simp add: sync_project_def try_body_def create_step_def)
  with s iq show "\<exists>ok ans w3.
               scan_application (iq self) app br stage w2 =
                 (Inr ok, [(PostEvaluation app br stage, ans)], w3) \<and>
               sync_project self org apps br p c w =
                 (Inr (if ok then c\<lparr>created := created c + 1, scanned := scanned c + 1\<rparr>
                       else c\<lparr>created := created c + 1, errors := errors c + 1\<rparr>),
                  t1 @ t2 @ [(PostEvaluation app br stage, ans)], w3)"
    by (auto simp: IQ_def)
qed

text \<open>
  Claim C3, as stated, fails: in the run below the listing maps \<open>billing\<close> to an empty
  id and the creation POST for \<open>billing\<close> is sent all the same; it maps \<open>mail\<close> to id a9,
  but \<open>mail\<close> has no repository URL and no scan is requested for it.
\<close>

theorem mapped_name_counterexample:
  "apps_dict listed_apps (project_name billing) = Some '''' \<and>
   apps_dict listed_apps (project_name mail) = Some ''a9'' \<and>
   matched_projects ''Alpha'' [billing, mail] = [billing, mail] \<and>
   sync example_sync ''42'' ''Alpha'' listed_script =
     (Inr \<lparr>created = 1, scanned = 1, errors = 1\<rparr>,
      [(GetProjects, Response 200 (ProjectsBody [billing, mail])),
       (GetApplications ''42'', Response 200 (ApplicationsBody listed_apps)),
       (GetRepositories ''p1'', Response 200 (RepositoriesBody [Some ''u1''])),
       (PostApplication ''billing'' ''42'', Response 200 (ApplicationBody ''a1'')),
       (PostSourceControl ''a1'' ''u1'' ''main'', Response 200 OtherBody),
       (PostEvaluation ''a1'' ''main'' ''source'', Response 200 OtherBody),
       (GetRepositories ''p4'', Response 200 (RepositoriesBody []))],
      [])"
proof -
  have d1: "apps_dict listed_apps (project_name billing) = Some ''''"
    by (simp add: apps_dict_def listed_apps_def billing_def)
  have d2: "apps_dict listed_apps (project_name mail) = Some ''a9''"
    by (simp add: apps_dict_def listed_apps_def mail_def)
  have m: "matched_projects ''Alpha'' [billing, mail] = [billing, mail]"
    by (simp add: matched_projects_def billing_def mail_def marker_def marker_label_def or_empty_def)
  have gp: "get_projects (azure_devops example_sync) listed_script =
      (Inr [billing, mail], [(GetProjects, Response 200 (ProjectsBody [billing, mail]))],
       tl listed_script)"
    by (simp add: example_sync_def client_defs listed_script_def project_copy)
  have run: "sync example_sync ''42'' ''Alpha'' listed_script =
     (Inr \<lparr>created = 1, scanned = 1, errors = 1\<rparr>,
      [(GetProjects, Response 200 (ProjectsBody [billing, mail])),
       (GetApplications ''42'', Response 200 (ApplicationsBody listed_apps)),
       (GetRepositories ''p1'', Response 200 (RepositoriesBody [Some ''u1''])),
       (PostApplication ''billing'' ''42'', Response 200 (ApplicationBody ''a1'')),
       (PostSourceControl ''a1'' ''u1'' ''main'', Response 200 OtherBody),
       (PostEvaluation ''a1'' ''main'' ''source'', Response 200 OtherBody),
       (GetRepositories ''p4'', Response 200 (RepositoriesBody []))],
      [])"
    unfolding sync_def gp
    by (simp add: m Let_def)
       (simp add: example_sync_def example_config_def client_defs listed_script_def
          listed_apps_def apps_dict_def billing_def mail_def loop_defs Let_def)
  show ?thesis using d1 d2 m run by simp
qed

text \<open>
  The iteration for a project that has a repository URL and whose name the mapping binds
  to a non-empty id: the repository lookup and the scan POST for that id are the only
  requests.
\<close>

lemma iteration_only_scans:
  assumes az: "azure_devops self = AzureDevOps srv"
    and iq: "iq self = IQ srv"
    and stage: "config self ''STAGE_ID'' = Some stage"
    and url: "get_repo_url (azure_devops self) (project_id p) w = (Inr (Some url), t1, w1)"
             "url \<noteq> []"
    and existing: "apps (project_name p) = Some app" "app \<noteq> []"
  shows "\<exists>ok ans w2 t.
           scan_application (iq self) app br stage w1 =
             (Inr ok, [(PostEvaluation app br stage, ans)], w2) \<and>
           sync_project self org apps br p c w =
             (Inr (if ok then c\<lparr>scanned := scanned c + 1\<rparr> else c\<lparr>errors := errors c + 1\<rparr>),
              t, w2) \<and>
           map fst t = [GetRepositories (project_id p), PostEvaluation app br stage]"
proof -
  from scan_step_real [OF iq stage, where app = app and br = br and c = c and w = w1]
  obtain ok ans w2 where s: "IQ_scan_application srv app br stage w1 =
             (Inr ok, [(PostEvaluation app br stage, ans)], w2)"
    and ss: "scan_step self app br c w1 =
             ((None, if ok then c\<lparr>scanned := scanned c + 1\<rparr> else c\<lparr>errors := errors c + 1\<rparr>),
              [(PostEvaluation app br stage, ans)], w2)"
    by auto
  have t1: "map fst t1 = [GetRepositories (project_id p)]"
    using url(1) az repo_real [of srv "project_id p" w] by (auto simp: AzureDevOps_def)
  have run: "sync_project self org apps br p c w =
             (Inr (if ok then c\<lparr>scanned := scanned c + 1\<rparr> else c\<lparr>errors := errors c + 1\<rparr>),
              t1 @ [(PostEvaluation app br stage, ans)], w2)"
    using url existing ss by (simp add: sync_project_def try_body_def)
  show ?thesis
    using s run t1 iq by (auto simp: IQ_def)
qed

text \<open>
  Claim C10, as stated, fails in its last part: in the run below the application
  listing cannot be reached, the mapping is empty, and the only matched project has no
  repository URL, so no creation POST is sent for it.
\<close>

theorem failed_listing_counterexample:
  "matched_projects ''Gamma'' gamma_projects = gamma_projects \<and>
   fst (IQ_request replay (GetApplications ''43'') (tl gamma_script)) = Inl RequestException \<and>
   sync example_sync ''43'' ''Gamma'' gamma_script =
     (Inr \<lparr>created = 0, scanned = 0, errors = 1\<rparr>,
      [(GetProjects, Response 200 (ProjectsBody gamma_projects)),
       (GetApplications ''43'', ConnectionFailed),
       (GetRepositories ''p9'', Response 200 (RepositoriesBody []))],
      [])"
proof -
  have m: "matched_projects ''Gamma'' gamma_projects = gamma_projects"
    by (simp add: matched_projects_def gamma_projects_def marker_def marker_label_def or_empty_def)
  have f: "fst (IQ_request replay (GetApplications ''43'') (tl gamma_script)) = Inl RequestException"
    by (simp add: IQ_request_def gamma_script_def)
  show ?thesis using m f gamma_run by simp
qed

text \<open>
  The iteration for a project that has a repository URL and whose name the mapping binds
  to no id or to an empty one: the creation POST follows the repository lookup.
\<close>

lemma iteration_creates_on_falsy_id:
  assumes iq: "iq self = IQ srv"
    and url: "get_repo_url (azure_devops self) (project_id p) w = (Inr (Some url), t1, w1)"
             "url \<noteq> []"
    and falsy: "\<not> truthy (apps (project_name p))"
  shows "(\<exists>ans rest r w'.
            sync_project self org apps br p c w =
              (r, t1 @ (PostApplication (project_name p) org, ans) # rest, w')) \<and>
         \<not> truthy (Some []) \<and> \<not> truthy (Map.empty (project_name p)) \<and>
         ((\<exists>e. fst (IQ_request srv (GetApplications org) w0) = Inl e) \<longrightarrow>
            fst (get_applications (iq self) org w0) = Inr Map.empty)"
proof (intro conjI)
  obtain v ans rest w2 where cr:
    "IQ_create_application srv (project_name p) url br org w1 =
      (Inr v, (PostApplication (project_name p) org, ans) # rest, w2)"
    using create_real [of srv "project_name p" url br org w1] by auto
  have tb: "try_body self org apps (project_name p) url br c w1 =
          create_step self org (project_name p) url br c w1"
    using falsy by (cases "apps (project_name p)") (auto simp: try_body_def truthy_def)
  obtain eo c2 t3 w3 where ss:
    "scan_step self (the v) br (c\<lparr>created := created c + 1\<rparr>) w2 = ((eo, c2), t3, w3)"
    by (metis prod.exhaust)
  have "\<exists>r rest' w'. create_step self org (project_name p) url br c w1 =
          (r, (PostApplication (project_name p) org, ans) # rest', w')"
    using cr iq ss by (cases v) (auto simp: create_step_def IQ_def)
  then obtain r0 rest' w' where cs: "create_step self org (project_name p) url br c w1 =
          (r0, (PostApplication (project_name p) org, ans) # rest', w')" by blast
  obtain eo' c' where r0: "r0 = (eo', c')" by (cases r0)
  show "\<exists>ans rest r w'.
            sync_project self org apps br p c w =
              (r, t1 @ (PostApplication (project_name p) org, ans) # rest, w')"
    using url tb cs r0 by (cases eo') (auto simp: sync_project_def)
next
  show "\<not> truthy (Some [])" by (simp add: truthy_def)
next
  show "\<not> truthy (Map.empty (project_name p))" by (simp add: truthy_def)
next
  show "(\<exists>e. fst (IQ_request srv (GetApplications org) w0) = Inl e) \<longrightarrow>
            fst (get_applications (iq self) org w0) = Inr Map.empty"
    using iq by (auto simp: IQ_def IQ_get_applications_def split: prod.splits)
qed

subsection \<open>The projects a run processes\<close>

lemma lookups_append [simp]:
  "repository_lookups (t @ u) = repository_lookups t @ repository_lookups u"
  by (simp add: repository_lookups_def)

lemma lookups_Nil [simp]: "repository_lookups [] = []"
  by (simp add: repository_lookups_def)

lemma create_lookups:
  assumes "IQ_create_application srv name url br org w = (r, t, w')"
  shows "repository_lookups t = []"
proof -
  obtain r1 ans w1 where first: "IQ_request srv (PostApplication name org) w =
      (r1, [(PostApplication name org, ans)], w1)"
    using IQ_request_event [of srv "PostApplication name org" w] by auto
  show ?thesis
  proof (cases r1)
    case (Inl e)
    with first assms show ?thesis
      by (auto simp: IQ_create_application_def repository_lookups_def)
  next
    case (Inr sb)
    obtain status b where sb: "sb = (status, b)" by (cases sb)
    show ?thesis
    proof (cases b)
      case (ApplicationBody new_id)
      obtain r2 ans2 w2 where "IQ_request srv (PostSourceControl new_id url br) w1 =
          (r2, [(PostSourceControl new_id url br, ans2)], w2)"
        using IQ_request_event [of srv "PostSourceControl new_id url br" w1] by auto
      with first Inr sb ApplicationBody assms show ?thesis
        by (cases r2) (auto simp: IQ_create_application_def repository_lookups_def)
    qed (use first Inr sb assms in \<open>auto simp: IQ_create_application_def repository_lookups_def\<close>)
  qed
qed

lemma scan_step_lookups:
  assumes "iq self = IQ srv" and "scan_step self app br c w = (r, t, w')"
  shows "repository_lookups t = []"
proof (cases "config self ''STAGE_ID''")
  case None
  with assms show ?thesis by (simp add: scan_step_def)
next
  case (Some stage)
  from scan_step_real [OF assms(1) Some, where app = app and br = br and c = c and w = w] assms(2)
  show ?thesis by (auto simp: repository_lookups_def)
qed

lemma create_step_lookups:
  assumes iq: "iq self = IQ srv" and run: "create_step self org name url br c w = (r, t, w')"
  shows "repository_lookups t = []"
proof -
  obtain v t0 w1 where cr: "IQ_create_application srv name url br org w = (Inr v, t0, w1)"
    using create_real [of srv name url br org w] by auto
  have l1: "repository_lookups t0 = []"
    using cr by (rule create_lookups)
  show ?thesis
  proof (cases "\<exists>app. v = Some app \<and> app \<noteq> []")
    case False
    with cr iq run l1 show ?thesis
      by (cases v) (auto simp: create_step_def IQ_def)
  next
    case True
    then obtain app where app: "v = Some app" "app \<noteq> []" by blast
    obtain r2 t2 w2 where ss:
      "scan_step self app br (c\<lparr>created := created c + 1\<rparr>) w1 = (r2, t2, w2)"
      by (metis prod.exhaust)
    from scan_step_lookups [OF iq ss] cr iq run l1 app ss show ?thesis
      by (auto simp: create_step_def IQ_def)
  qed
qed

lemma try_body_lookups:
  assumes iq: "iq self = IQ srv" and run: "try_body self org apps name url br c w = (r, t, w')"
  shows "repository_lookups t = []"
proof (cases "\<exists>app. apps name = Some app \<and> app \<noteq> []")
  case True
  then obtain app where "apps name = Some app" "app \<noteq> []" by blast
  with run have "scan_step self app br c w = (r, t, w')" by (simp add: try_body_def)
  then show ?thesis by (rule scan_step_lookups [OF iq])
next
  case False
  with run have "create_step self org name url br c w = (r, t, w')"
    by (cases "apps name") (auto simp: try_body_def)
  then show ?thesis by (rule create_step_lookups [OF iq])
qed

lemma sync_project_lookups:
  assumes az: "azure_devops self = AzureDevOps srv" and iq: "iq self = IQ srv"
  shows "\<exists>c' t w'. sync_project self org apps br p c w = (Inr c', t, w') \<and>
           repository_lookups t = [project_id p]"
proof -
  obtain r ans w1 where g: "AzureDevOps_get_repo_url srv (project_id p) w =
      (Inr r, [(GetRepositories (project_id p), ans)], w1)"
    using repo_real [of srv "project_id p" w] by auto
  then have g': "get_repo_url (azure_devops self) (project_id p) w =
      (Inr r, [(GetRepositories (project_id p), ans)], w1)"
    using az by (simp add: AzureDevOps_def)
  show ?thesis
  proof (cases "\<exists>url. r = Some url \<and> url \<noteq> []")
    case False
    with g' show ?thesis
      by (cases r) (auto simp: sync_project_def repository_lookups_def)
  next
    case True
    then obtain url where url: "r = Some url" "url \<noteq> []" by blast
    obtain eo c2 t2 w2 where tb:
      "try_body self org apps (project_name p) url br c w1 = ((eo, c2), t2, w2)"
      by (metis prod.exhaust)
    from try_body_lookups [OF iq tb] g' url tb show ?thesis
      by (cases eo) (auto simp: sync_project_def repository_lookups_def)
  qed
qed

lemma sync_loop_lookups:
  assumes az: "azure_devops self = AzureDevOps srv" and iq: "iq self = IQ srv"
  shows "\<exists>c' t w'. sync_loop self org apps br ps c w = (Inr c', t, w') \<and>
           repository_lookups t = map project_id ps"
proof (induction ps arbitrary: c w)
  case Nil
  show ?case by simp
next
  case (Cons p ps)
  obtain c1 t1 w1 where sp: "sync_project self org apps br p c w = (Inr c1, t1, w1)"
    and l1: "repository_lookups t1 = [project_id p]"
    using sync_project_lookups [OF az iq, of org apps br p c w] by auto
  obtain c2 t2 w2 where sl: "sync_loop self org apps br ps c1 w1 = (Inr c2, t2, w2)"
    and l2: "repository_lookups t2 = map project_id ps"
    using Cons.IH [of c1 w1] by auto
  show ?case using sp l1 sl l2 by simp
qed

lemma sync_lookups:
  assumes az: "azure_devops self = AzureDevOps srv" and iq: "iq self = IQ srv"
    and gp: "get_projects (azure_devops self) w = (Inr all_projects, t1, w1)"
  shows "repository_lookups (fst (snd (sync self org chinese_name w))) =
           map project_id (matched_projects chinese_name all_projects)"
proof -
  have "AzureDevOps_get_projects srv w = (Inr all_projects, t1, w1)"
    using gp az by (simp add: AzureDevOps_def)
  then have t1: "repository_lookups t1 = []"
    by (auto simp: AzureDevOps_get_projects_def AzureDevOps_request_def repository_lookups_def
        split: prod.splits http_result.splits body.splits if_splits)
  let ?m = "matched_projects chinese_name all_projects"
  show ?thesis
  proof (cases "?m = []")
    case True
    with gp t1 show ?thesis by (simp add: sync_def)
  next
    case False
    obtain r2 t2 w2 where ga: "get_applications (iq self) org w1 = (r2, t2, w2)"
      by (metis prod.exhaust)
    then have "IQ_get_applications srv org w1 = (r2, t2, w2)"
      using iq by (simp add: IQ_def)
    then obtain apps where r2: "r2 = Inr apps" and t2: "repository_lookups t2 = []"
      using IQ_request_event [of srv "GetApplications org" w1]
      by (auto simp: IQ_get_applications_def repository_lookups_def
          split: prod.splits sum.splits body.splits)
    let ?br = "case config self ''DEFAULT_BRANCH'' of None \<Rightarrow> ''main'' | Some b \<Rightarrow> b"
    obtain c3 t3 w3 where sl:
      "sync_loop self org apps ?br ?m \<lparr>created = 0, scanned = 0, errors = 0\<rparr> w2 = (Inr c3, t3, w3)"
      and t3: "repository_lookups t3 = map project_id ?m"
      using sync_loop_lookups [OF az iq, of org apps ?br ?m "\<lparr>created = 0, scanned = 0, errors = 0\<rparr>" w2]
      by auto
    show ?thesis
      using gp False ga r2 sl t1 t2 t3 by (simp add: sync_def Let_def)
  qed
qed

text \<open>
  Claim C1. The projects \<^verbatim>\<open>Sync.sync\<close> selects for a display name are exactly the
  projects of the listing, in listing order, whose description contains the marker for
  that name character for character (so the comparison is case-sensitive and nothing but
  the exact marker matches); a project without description is never selected. With the
  clients of the tool, the projects whose repository \<^verbatim>\<open>Sync.sync\<close> looks up are exactly
  these, in this order.
\<close>

theorem sync_matches_marked_projects:
  "matched_projects chinese_name all_projects = filter (has_marker chinese_name) all_projects \<and>
   (\<forall>p. description p = None \<longrightarrow> p \<notin> set (matched_projects chinese_name all_projects)) \<and>
   (azure_devops self = AzureDevOps srv \<and> iq self = IQ srv \<and>
    get_projects (azure_devops self) w = (Inr all_projects, t1, w1) \<longrightarrow>
      repository_lookups (fst (snd (sync self org chinese_name w))) =
        map project_id (filter (has_marker chinese_name) all_projects))"
proof -
  have m: "matched_projects chinese_name all_projects = filter (has_marker chinese_name) all_projects"
    unfolding matched_projects_def by (rule filter_cong) (simp_all add: marker_in_description)
  have n: "\<forall>p. description p = None \<longrightarrow> p \<notin> set (matched_projects chinese_name all_projects)"
    unfolding m by (auto simp: has_marker_def)
  have l: "azure_devops self = AzureDevOps srv \<and> iq self = IQ srv \<and>
    get_projects (azure_devops self) w = (Inr all_projects, t1, w1) \<longrightarrow>
      repository_lookups (fst (snd (sync self org chinese_name w))) =
        map project_id (filter (has_marker chinese_name) all_projects)"
  proof (intro impI, elim conjE)
    assume az: "azure_devops self = AzureDevOps srv" and iq: "iq self = IQ srv"
      and gp: "get_projects (azure_devops self) w = (Inr all_projects, t1, w1)"
    from sync_lookups [OF az iq gp, of org chinese_name]
    show "repository_lookups (fst (snd (sync self org chinese_name w))) =
        map project_id (filter (has_marker chinese_name) all_projects)"
      by (simp only: m)
  qed
  show ?thesis by (intro conjI m n l)
qed

theorem sync_matches_marked_projects_witness:
  "map project_id (filter (has_marker ''Alpha'') example_projects) = [''p1''] \<and>
   get_projects (azure_devops example_sync) alpha_script =
     (Inr alpha_projects, [(GetProjects, Response 200 (ProjectsBody alpha_projects))],
      tl alpha_script) \<and>
   map project_id (filter (has_marker ''Alpha'') alpha_projects) = [''p1'', ''p3'', ''p4''] \<and>
   repository_lookups (fst (snd (sync example_sync ''42'' ''Alpha'' alpha_script))) =
     [''p1'', ''p3'', ''p4'']"
proof -
  have h1: "filter (has_marker ''Alpha'') example_projects =
            matched_projects ''Alpha'' example_projects"
    by (rule sync_matches_marked_projects
          [of "''Alpha''" example_projects, THEN conjunct1, symmetric])
  have h2: "map project_id (matched_projects ''Alpha'' example_projects) = [''p1'']"
    by (simp add: matched_projects_def example_projects_def marker_def marker_label_def
          or_empty_def)
  have gp: "get_projects (azure_devops example_sync) alpha_script =
     (Inr alpha_projects, [(GetProjects, Response 200 (ProjectsBody alpha_projects))],
      tl alpha_script)"
    by (simp add: example_sync_def client_defs alpha_script_def project_copy)
  have h3: "filter (has_marker ''Alpha'') alpha_projects = matched_projects ''Alpha'' alpha_projects"
    by (rule sync_matches_marked_projects
          [of "''Alpha''" alpha_projects, THEN conjunct1, symmetric])
  have h4: "map project_id (matched_projects ''Alpha'' alpha_projects) = [''p1'', ''p3'', ''p4'']"
    by (simp add: alpha_matched)
  have h5: "repository_lookups (fst (snd (sync example_sync ''42'' ''Alpha'' alpha_script))) =
        map project_id (filter (has_marker ''Alpha'') alpha_projects)"
    using sync_matches_marked_projects
      [where self = example_sync and srv = replay and w = alpha_script
         and all_projects = alpha_projects and chinese_name = "''Alpha''" and org = "''42''",
       THEN conjunct2, THEN conjunct2]
      example_sync_azure example_sync_iq gp
    by blast
  show ?thesis by (simp only: h1 h2 h3 h4 h5 gp simp_thms)
qed

subsection \<open>The loop runs the iterations in order\<close>

text \<open>
  Processing a list of projects is processing a first part and then, from the counters
  and the world it leaves, the rest; an exception that leaves an iteration ends the loop.
\<close>

lemma sync_loop_append:
  "sync_loop self org apps br (ps @ qs) c w =
     (case sync_loop self org apps br ps c w of
        (Inl e, t, w1) \<Rightarrow> (Inl e, t, w1)
      | (Inr c1, t, w1) \<Rightarrow>
          (case sync_loop self org apps br qs c1 w1 of (r, t2, w2) \<Rightarrow> (r, t @ t2, w2)))"
proof (induction ps arbitrary: c w)
  case Nil
  show ?case by (simp split: prod.splits)
next
  case (Cons p ps)
  show ?case
    by (simp add: Cons.IH split: prod.splits sum.splits)
qed

subsection \<open>A matched project within a run of the reconciler\<close>

text \<open>
  The statements of this part are about a whole run of \<^verbatim>\<open>Sync.sync\<close>. The run fetches
  the projects, selects the matched ones, fetches the application mapping \<open>apps\<close> and
  processes the matched projects in order. A matched project \<open>p\<close> is given by its place
  in the selection, \<open>pre @ p # post\<close>; its iteration begins with the counters \<open>c\<close> and
  in the world \<open>wp\<close> that the iterations for \<open>pre\<close> leave, and the run ends with what
  the iterations for \<open>post\<close> make of the counters and the world that the iteration for
  \<open>p\<close> leaves.
\<close>

lemma apps_dict_snoc: "apps_dict (xs @ [a]) = (apps_dict xs)(app_name a \<mapsto> app_id a)"
  by (simp add: apps_dict_def)

lemma apps_dict_Nil: "apps_dict [] = Map.empty"
  by (simp add: apps_dict_def)

lemma apps_dict_None: "(apps_dict xs n = None) = (n \<notin> set (map app_name xs))"
  by (induction xs rule: rev_induct) (auto simp: apps_dict_snoc apps_dict_Nil)

lemma apps_dict_Some:
  "apps_dict xs n = Some i \<Longrightarrow> \<exists>a \<in> set xs. app_name a = n \<and> app_id a = i"
  by (induction xs rule: rev_induct) (auto simp: apps_dict_snoc apps_dict_Nil split: if_splits)

lemma real_listing:
  assumes "iq self = IQ srv" and "get_applications (iq self) org w = (Inr apps, t, w')"
  shows "\<exists>listing. apps = apps_dict listing"
proof -
  from assms have "IQ_get_applications srv org w = (Inr apps, t, w')"
    by (simp add: IQ_def)
  then have "apps = Map.empty \<or> (\<exists>listing. apps = apps_dict listing)"
    by (auto simp: IQ_get_applications_def split: prod.splits sum.splits body.splits)
  then show ?thesis using apps_dict_Nil by metis
qed

lemma sync_run_split:
  assumes gp: "get_projects (azure_devops self) w = (Inr all_projects, t1, w1)"
    and m: "matched_projects chinese_name all_projects = pre @ p # post"
    and ga: "get_applications (iq self) org w1 = (Inr apps, t2, w2)"
    and br: "br = (case config self ''DEFAULT_BRANCH'' of None \<Rightarrow> ''main'' | Some b \<Rightarrow> b)"
    and before: "sync_loop self org apps br pre \<lparr>created = 0, scanned = 0, errors = 0\<rparr> w2
                   = (Inr c, tpre, wp)"
    and step: "sync_project self org apps br p c wp = (Inr c', tp, wp')"
    and rest: "sync_loop self org apps br post c' wp' = (r, tpost, w')"
  shows "sync self org chinese_name w = (r, t1 @ t2 @ tpre @ tp @ tpost, w')"
proof -
  have loop: "sync_loop self org apps br (pre @ p # post) \<lparr>created = 0, scanned = 0, errors = 0\<rparr> w2
                = (r, tpre @ tp @ tpost, w')"
    using before step rest by (simp add: sync_loop_append)
  have ne: "matched_projects chinese_name all_projects \<noteq> []"
    using m by simp
  show ?thesis
    using gp ne ga loop
    unfolding sync_def m br
    by (simp add: Let_def m)
qed

text \<open>
  With the clients that \<^verbatim>\<open>Sync.__init__\<close> builds, the two listings and every iteration
  return: the intermediate results that the statements below name exist for every
  matched project of every run.
\<close>

lemma real_projects_returned:
  "\<exists>ps t w'. get_projects (AzureDevOps srv) w = (Inr ps, t, w')"
  by (auto simp: AzureDevOps_def AzureDevOps_get_projects_def
      split: prod.splits sum.splits body.splits)

lemma real_listing_returned:
  "\<exists>apps t w'. get_applications (IQ srv) org w = (Inr apps, t, w')"
  by (auto simp: IQ_def IQ_get_applications_def split: prod.splits sum.splits body.splits)

lemma real_project_returns:
  assumes az: "azure_devops self = AzureDevOps srv"
  shows "\<exists>c' t w'. sync_project self org apps br p c w = (Inr c', t, w')"
proof -
  from repo_real [of srv "project_id p" w] obtain r ans w1 where
    u: "get_repo_url (azure_devops self) (project_id p) w = (Inr r, [(GetRepositories (project_id p), ans)], w1)"
    by (auto simp: az AzureDevOps_def)
  show ?thesis
    by (simp add: sync_project_def u split: option.splits prod.splits)
qed

lemma real_loop_returns:
  assumes az: "azure_devops self = AzureDevOps srv"
  shows "\<exists>c' t w'. sync_loop self org apps br ps c w = (Inr c', t, w')"
proof (induction ps arbitrary: c w)
  case Nil
  show ?case by simp
next
  case (Cons p ps)
  from real_project_returns [OF az, of org apps br p c w] obtain c1 t1 w1 where
    s: "sync_project self org apps br p c w = (Inr c1, t1, w1)" by blast
  from Cons.IH [of c1 w1] obtain c2 t2 w2 where
    l: "sync_loop self org apps br ps c1 w1 = (Inr c2, t2, w2)" by blast
  show ?case by (simp add: s l)
qed

lemma example_sync_branch:
  "''main'' = (case config example_sync ''DEFAULT_BRANCH'' of None \<Rightarrow> ''main'' | Some b \<Rightarrow> b)"
  by (simp add: example_sync_def example_config_def)

lemma alpha_split_billing:
  "matched_projects ''Alpha'' alpha_projects = [] @ billing # [shop, mail]"
  by (simp add: alpha_matched billing_def shop_def mail_def)

lemma alpha_split_shop:
  "matched_projects ''Alpha'' alpha_projects = [billing] @ shop # [mail]"
  by (simp add: alpha_matched billing_def shop_def mail_def)

lemma alpha_projects_fetched:
  "get_projects (azure_devops example_sync) alpha_script =
     (Inr alpha_projects, [(GetProjects, Response 200 (ProjectsBody alpha_projects))],
      drop 1 alpha_script)"
  by (simp add: example_sync_def client_defs alpha_script_def project_copy)

lemma alpha_listing_fetched:
  "get_applications (iq example_sync) ''42'' (drop 1 alpha_script) =
     (Inr (apps_dict shop_listing),
      [(GetApplications ''42'', Response 200 (ApplicationsBody shop_listing))],
      drop 2 alpha_script)"
  by (simp add: example_sync_def client_defs alpha_script_def shop_listing_def)

lemma alpha_billing_url:
  "get_repo_url (azure_devops example_sync) (project_id billing) (drop 2 alpha_script) =
     (Inr (Some ''u1''), [(GetRepositories ''p1'', Response 200 (RepositoriesBody [Some ''u1'']))],
      drop 3 alpha_script)"
  by (simp add: example_sync_def client_defs alpha_script_def billing_def)

lemma alpha_billing_created:
  "create_application (iq example_sync) (project_name billing) ''u1'' ''main'' ''42''
     (drop 3 alpha_script) =
     (Inr (Some ''a1''),
      [(PostApplication ''billing'' ''42'', Response 200 (ApplicationBody ''a1'')),
       (PostSourceControl ''a1'' ''u1'' ''main'', Response 200 OtherBody)],
      drop 5 alpha_script)"
  by (simp add: example_sync_def client_defs alpha_script_def billing_def)

lemma alpha_before_shop:
  "sync_loop example_sync ''42'' (apps_dict shop_listing) ''main'' [billing]
     \<lparr>created = 0, scanned = 0, errors = 0\<rparr> (drop 2 alpha_script) =
     (Inr \<lparr>created = 1, scanned = 1, errors = 0\<rparr>,
      [(GetRepositories ''p1'', Response 200 (RepositoriesBody [Some ''u1''])),
       (PostApplication ''billing'' ''42'', Response 200 (ApplicationBody ''a1'')),
       (PostSourceControl ''a1'' ''u1'' ''main'', Response 200 OtherBody),
       (PostEvaluation ''a1'' ''main'' ''source'', Response 200 OtherBody)],
      drop 6 alpha_script)"
  by (simp add: loop_defs example_sync_def example_config_def client_defs alpha_script_def
        billing_def shop_listing_def apps_dict_def)

lemma alpha_shop_url:
  "get_repo_url (azure_devops example_sync) (project_id shop) (drop 6 alpha_script) =
     (Inr (Some ''u3''), [(GetRepositories ''p3'', Response 200 (RepositoriesBody [Some ''u3'']))],
      drop 7 alpha_script)"
  by (simp add: example_sync_def client_defs alpha_script_def shop_def)

lemma listed_projects_fetched:
  "get_projects (azure_devops example_sync) listed_script =
     (Inr [billing, mail], [(GetProjects, Response 200 (ProjectsBody [billing, mail]))],
      drop 1 listed_script)"
  by (simp add: example_sync_def client_defs listed_script_def project_copy)

lemma listed_split_billing:
  "matched_projects ''Alpha'' [billing, mail] = [] @ billing # [mail]"
  by (simp add: matched_projects_def billing_def mail_def marker_def marker_label_def or_empty_def)

lemma listed_request:
  "IQ_request replay (GetApplications ''42'') (drop 1 listed_script) =
     (Inr (200, ApplicationsBody listed_apps),
      [(GetApplications ''42'', Response 200 (ApplicationsBody listed_apps))],
      drop 2 listed_script)"
  by (simp add: IQ_request_def listed_script_def)

lemma listed_listing_fetched:
  "get_applications (iq example_sync) ''42'' (drop 1 listed_script) =
     (Inr (apps_dict listed_apps),
      [(GetApplications ''42'', Response 200 (ApplicationsBody listed_apps))],
      drop 2 listed_script)"
  by (simp add: example_sync_def client_defs listed_script_def)

lemma listed_billing_url:
  "get_repo_url (azure_devops example_sync) (project_id billing) (drop 2 listed_script) =
     (Inr (Some ''u1''), [(GetRepositories ''p1'', Response 200 (RepositoriesBody [Some ''u1'']))],
      drop 3 listed_script)"
  by (simp add: example_sync_def client_defs listed_script_def billing_def)

lemma gamma_url_projects_fetched:
  "get_projects (azure_devops example_sync) gamma_url_script =
     (Inr gamma_projects, [(GetProjects, Response 200 (ProjectsBody gamma_projects))],
      drop 1 gamma_url_script)"
  by (simp add: example_sync_def client_defs gamma_url_script_def project_copy)

lemma gamma_split_wiki:
  "matched_projects ''Gamma'' gamma_projects = [] @ wiki # []"
  by (simp add: matched_projects_def gamma_projects_def wiki_def marker_def marker_label_def
        or_empty_def)

lemma gamma_url_request:
  "IQ_request replay (GetApplications ''43'') (drop 1 gamma_url_script) =
     (Inl RequestException, [(GetApplications ''43'', ConnectionFailed)], drop 2 gamma_url_script)"
  by (simp add: IQ_request_def gamma_url_script_def)

lemma gamma_url_listing_fetched:
  "get_applications (iq example_sync) ''43'' (drop 1 gamma_url_script) =
     (Inr Map.empty, [(GetApplications ''43'', ConnectionFailed)], drop 2 gamma_url_script)"
  by (simp add: example_sync_def client_defs gamma_url_script_def)

lemma gamma_wiki_url:
  "get_repo_url (azure_devops example_sync) (project_id wiki) (drop 2 gamma_url_script) =
     (Inr (Some ''u9''), [(GetRepositories ''p9'', Response 200 (RepositoriesBody [Some ''u9'']))],
      drop 3 gamma_url_script)"
  by (simp add: example_sync_def client_defs gamma_url_script_def wiki_def)

text \<open>
  Claim C2. Let \<open>p\<close> be a matched project of a run of \<^verbatim>\<open>Sync.sync\<close> that has a repository
  URL, while the application mapping the run fetched has no entry for its name, which is
  to say that no application of the listing has that name. Then the run sends the
  creation POST for \<open>p\<close> right after the repository lookup. If \<^verbatim>\<open>create_application\<close>
  gives no id (creation failed), nothing more is sent for \<open>p\<close> and the project adds
  one to \<open>errors\<close> and nothing to \<open>created\<close> and \<open>scanned\<close>. If it gives an id, the
  scan POST for that id follows, and the project adds one to \<open>created\<close> and one to
  exactly one of \<open>scanned\<close> (scan succeeded) and \<open>errors\<close> (scan failed).
\<close>

theorem sync_creates_then_scans_new_project:
  assumes iq: "iq self = IQ srv"
    and stage: "config self ''STAGE_ID'' = Some stage"
    and br: "br = (case config self ''DEFAULT_BRANCH'' of None \<Rightarrow> ''main'' | Some b \<Rightarrow> b)"
    and gp: "get_projects (azure_devops self) w = (Inr all_projects, t1, w1)"
    and m: "matched_projects chinese_name all_projects = pre @ p # post"
    and ga: "get_applications (iq self) org w1 = (Inr apps, t2, w2)"
    and new: "apps (project_name p) = None"
    and before: "sync_loop self org apps br pre \<lparr>created = 0, scanned = 0, errors = 0\<rparr> w2
                   = (Inr c, tpre, wp)"
    and url: "get_repo_url (azure_devops self) (project_id p) wp = (Inr (Some url), tu, wu)"
             "url \<noteq> []"
    and cr: "create_application (iq self) (project_name p) url br org wu = (Inr new_id, tc, wc)"
  shows "(\<exists>listing. apps = apps_dict listing \<and> project_name p \<notin> set (map app_name listing)) \<and>
         (\<exists>ans rest. tc = (PostApplication (project_name p) org, ans) # rest) \<and>
         (\<not> truthy new_id \<longrightarrow>
            (\<exists>r tpost w'.
               sync_loop self org apps br post (c\<lparr>errors := errors c + 1\<rparr>) wc = (r, tpost, w') \<and>
               sync self org chinese_name w = (r, t1 @ t2 @ tpre @ tu @ tc @ tpost, w'))) \<and>
         (\<forall>app. new_id = Some app \<and> app \<noteq> [] \<longrightarrow>
            (\<exists>ok ans ws r tpost w'.
               scan_application (iq self) app br stage wc =
                 (Inr ok, [(PostEvaluation app br stage, ans)], ws) \<and>
               sync_loop self org apps br post
                 (if ok then c\<lparr>created := created c + 1, scanned := scanned c + 1\<rparr>
                  else c\<lparr>created := created c + 1, errors := errors c + 1\<rparr>) ws = (r, tpost, w') \<and>
               sync self org chinese_name w =
                 (r, t1 @ t2 @ tpre @ tu @ tc @ [(PostEvaluation app br stage, ans)] @ tpost, w')))"
proof (intro conjI allI impI)
  from real_listing [OF iq ga] obtain listing where l: "apps = apps_dict listing" by blast
  with new have "project_name p \<notin> set (map app_name listing)"
    by (simp add: apps_dict_None)
  with l show "\<exists>listing. apps = apps_dict listing \<and> project_name p \<notin> set (map app_name listing)"
    by blast
next
  from iteration_creates_then_scans [where apps = apps and p = p, OF iq stage url new cr]
  show "\<exists>ans rest. tc = (PostApplication (project_name p) org, ans) # rest" by blast
next
  assume f: "\<not> truthy new_id"
  from iteration_creates_then_scans [where apps = apps and p = p and c = c, OF iq stage url new cr] f
  have step: "sync_project self org apps br p c wp = (Inr (c\<lparr>errors := errors c + 1\<rparr>), tu @ tc, wc)"
    by blast
  obtain r tpost w' where rest:
    "sync_loop self org apps br post (c\<lparr>errors := errors c + 1\<rparr>) wc = (r, tpost, w')"
    by (metis prod.exhaust)
  from sync_run_split [OF gp m ga br before step rest] rest
  show "\<exists>r tpost w'.
               sync_loop self org apps br post (c\<lparr>errors := errors c + 1\<rparr>) wc = (r, tpost, w') \<and>
               sync self org chinese_name w = (r, t1 @ t2 @ tpre @ tu @ tc @ tpost, w')"
    by auto
next
  fix app
  assume a: "new_id = Some app \<and> app \<noteq> []"
  from iteration_creates_then_scans [where apps = apps and p = p and c = c, OF iq stage url new cr] a
  obtain ok ans ws where sc: "scan_application (iq self) app br stage wc =
                 (Inr ok, [(PostEvaluation app br stage, ans)], ws)"
    and step: "sync_project self org apps br p c wp =
                 (Inr (if ok then c\<lparr>created := created c + 1, scanned := scanned c + 1\<rparr>
                       else c\<lparr>created := created c + 1, errors := errors c + 1\<rparr>),
                  tu @ tc @ [(PostEvaluation app br stage, ans)], ws)"
    by blast
  obtain r tpost w' where rest:
    "sync_loop self org apps br post
                 (if ok then c\<lparr>created := created c + 1, scanned := scanned c + 1\<rparr>
                  else c\<lparr>created := created c + 1, errors := errors c + 1\<rparr>) ws = (r, tpost, w')"
    by (metis prod.exhaust)
  from sync_run_split [OF gp m ga br before step rest] sc rest
  show "\<exists>ok ans ws r tpost w'.
               scan_application (iq self) app br stage wc =
                 (Inr ok, [(PostEvaluation app br stage, ans)], ws) \<and>
               sync_loop self org apps br post
                 (if ok then c\<lparr>created := created c + 1, scanned := scanned c + 1\<rparr>
                  else c\<lparr>created := created c + 1, errors := errors c + 1\<rparr>) ws = (r, tpost, w') \<and>
               sync self org chinese_name w =
                 (r, t1 @ t2 @ tpre @ tu @ tc @ [(PostEvaluation app br stage, ans)] @ tpost, w')"
    by (intro exI [of _ ok] exI [of _ ans] exI [of _ ws] exI [of _ r] exI [of _ tpost]
          exI [of _ w']) simp
qed

theorem sync_creates_then_scans_new_project_witness:
  "matched_projects ''Alpha'' alpha_projects = [] @ billing # [shop, mail] \<and>
   fst (get_applications (iq example_sync) ''42'' (drop 1 alpha_script)) =
     Inr (apps_dict shop_listing) \<and>
   apps_dict shop_listing (project_name billing) = None \<and>
   (\<exists>ans r tpost w'.
      sync example_sync ''42'' ''Alpha'' alpha_script =
        (r, [(GetProjects, Response 200 (ProjectsBody alpha_projects)),
             (GetApplications ''42'', Response 200 (ApplicationsBody shop_listing)),
             (GetRepositories ''p1'', Response 200 (RepositoriesBody [Some ''u1''])),
             (PostApplication ''billing'' ''42'', Response 200 (ApplicationBody ''a1'')),
             (PostSourceControl ''a1'' ''u1'' ''main'', Response 200 OtherBody),
             (PostEvaluation ''a1'' ''main'' ''source'', ans)] @ tpost, w'))"
proof -
  have new: "apps_dict shop_listing (project_name billing) = None"
    by (simp add: apps_dict_def shop_listing_def billing_def)
  have before: "sync_loop example_sync ''42'' (apps_dict shop_listing) ''main'' []
      \<lparr>created = 0, scanned = 0, errors = 0\<rparr> (drop 2 alpha_script) =
      (Inr \<lparr>created = 0, scanned = 0, errors = 0\<rparr>, [], drop 2 alpha_script)"
    by simp
  have ne: "''u1'' \<noteq> []" by simp
  have run: "\<exists>ans r tpost w'.
      sync example_sync ''42'' ''Alpha'' alpha_script =
        (r, [(GetProjects, Response 200 (ProjectsBody alpha_projects)),
             (GetApplications ''42'', Response 200 (ApplicationsBody shop_listing)),
             (GetRepositories ''p1'', Response 200 (RepositoriesBody [Some ''u1''])),
             (PostApplication ''billing'' ''42'', Response 200 (ApplicationBody ''a1'')),
             (PostSourceControl ''a1'' ''u1'' ''main'', Response 200 OtherBody),
             (PostEvaluation ''a1'' ''main'' ''source'', ans)] @ tpost, w')"
    using sync_creates_then_scans_new_project
      [where self = example_sync and p = billing and apps = "apps_dict shop_listing"
         and pre = "[]" and post = "[shop, mail]" and chinese_name = "''Alpha''",
       OF example_sync_iq example_sync_stage example_sync_branch alpha_projects_fetched
         alpha_split_billing alpha_listing_fetched new before alpha_billing_url ne
         alpha_billing_created]
    by auto
  show ?thesis
    using alpha_split_billing alpha_listing_fetched new run by simp
qed

text \<open>
  Claim C3, amended. Let \<open>p\<close> be a matched project of a run of \<^verbatim>\<open>Sync.sync\<close> that has a
  repository URL and whose name the application mapping the run fetched binds to a
  non-empty id, which is the id of an application of the listing with exactly that name.
  Then the requests the run sends for \<open>p\<close> are the repository lookup and the scan POST
  for the mapped id, and no creation POST; the project leaves \<open>created\<close> as it is and
  adds one to exactly one of \<open>scanned\<close> and \<open>errors\<close>.
\<close>

theorem sync_only_scans_existing_application:
  assumes az: "azure_devops self = AzureDevOps srv"
    and iq: "iq self = IQ srv"
    and stage: "config self ''STAGE_ID'' = Some stage"
    and br: "br = (case config self ''DEFAULT_BRANCH'' of None \<Rightarrow> ''main'' | Some b \<Rightarrow> b)"
    and gp: "get_projects (azure_devops self) w = (Inr all_projects, t1, w1)"
    and m: "matched_projects chinese_name all_projects = pre @ p # post"
    and ga: "get_applications (iq self) org w1 = (Inr apps, t2, w2)"
    and existing: "apps (project_name p) = Some app" "app \<noteq> []"
    and before: "sync_loop self org apps br pre \<lparr>created = 0, scanned = 0, errors = 0\<rparr> w2
                   = (Inr c, tpre, wp)"
    and url: "get_repo_url (azure_devops self) (project_id p) wp = (Inr (Some url), tu, wu)"
             "url \<noteq> []"
  shows "(\<exists>listing. apps = apps_dict listing \<and>
            (\<exists>a \<in> set listing. app_name a = project_name p \<and> app_id a = app)) \<and>
         (\<exists>ok ans ws tp r tpost w'.
            scan_application (iq self) app br stage wu =
              (Inr ok, [(PostEvaluation app br stage, ans)], ws) \<and>
            map fst tp = [GetRepositories (project_id p), PostEvaluation app br stage] \<and>
            sync_loop self org apps br post
              (if ok then c\<lparr>scanned := scanned c + 1\<rparr> else c\<lparr>errors := errors c + 1\<rparr>) ws
              = (r, tpost, w') \<and>
            sync self org chinese_name w = (r, t1 @ t2 @ tpre @ tp @ tpost, w'))"
proof (intro conjI)
  from real_listing [OF iq ga] obtain listing where l: "apps = apps_dict listing" by blast
  with existing(1) apps_dict_Some
  have "\<exists>a \<in> set listing. app_name a = project_name p \<and> app_id a = app" by metis
  with l show "\<exists>listing. apps = apps_dict listing \<and>
            (\<exists>a \<in> set listing. app_name a = project_name p \<and> app_id a = app)" by blast
next
  from iteration_only_scans [where apps = apps and p = p and br = br and org = org and c = c, OF az iq stage url existing]
  obtain ok ans ws tp where sc: "scan_application (iq self) app br stage wu =
             (Inr ok, [(PostEvaluation app br stage, ans)], ws)"
    and step: "sync_project self org apps br p c wp =
             (Inr (if ok then c\<lparr>scanned := scanned c + 1\<rparr> else c\<lparr>errors := errors c + 1\<rparr>),
              tp, ws)"
    and calls: "map fst tp = [GetRepositories (project_id p), PostEvaluation app br stage]"
    by auto
  obtain r tpost w' where rest:
    "sync_loop self org apps br post
              (if ok then c\<lparr>scanned := scanned c + 1\<rparr> else c\<lparr>errors := errors c + 1\<rparr>) ws
              = (r, tpost, w')"
    by (metis prod.exhaust)
  from sync_run_split [OF gp m ga br before step rest] sc calls rest
  show "\<exists>ok ans ws tp r tpost w'.
            scan_application (iq self) app br stage wu =
              (Inr ok, [(PostEvaluation app br stage, ans)], ws) \<and>
            map fst tp = [GetRepositories (project_id p), PostEvaluation app br stage] \<and>
            sync_loop self org apps br post
              (if ok then c\<lparr>scanned := scanned c + 1\<rparr> else c\<lparr>errors := errors c + 1\<rparr>) ws
              = (r, tpost, w') \<and>
            sync self org chinese_name w = (r, t1 @ t2 @ tpre @ tp @ tpost, w')"
    by (intro exI [of _ ok] exI [of _ ans] exI [of _ ws] exI [of _ tp] exI [of _ r]
          exI [of _ tpost] exI [of _ w']) simp
qed

theorem sync_only_scans_existing_application_witness:
  "matched_projects ''Alpha'' alpha_projects = [billing] @ shop # [mail] \<and>
   fst (get_applications (iq example_sync) ''42'' (drop 1 alpha_script)) =
     Inr (apps_dict shop_listing) \<and>
   apps_dict shop_listing (project_name shop) = Some ''a7'' \<and>
   (\<exists>tp r tpost w'.
      map fst tp = [GetRepositories (project_id shop), PostEvaluation ''a7'' ''main'' ''source''] \<and>
      sync example_sync ''42'' ''Alpha'' alpha_script =
        (r, [(GetProjects, Response 200 (ProjectsBody alpha_projects))] @
            [(GetApplications ''42'', Response 200 (ApplicationsBody shop_listing))] @
            [(GetRepositories ''p1'', Response 200 (RepositoriesBody [Some ''u1''])),
             (PostApplication ''billing'' ''42'', Response 200 (ApplicationBody ''a1'')),
             (PostSourceControl ''a1'' ''u1'' ''main'', Response 200 OtherBody),
             (PostEvaluation ''a1'' ''main'' ''source'', Response 200 OtherBody)] @ tp @ tpost,
         w'))"
proof -
  have ex: "apps_dict shop_listing (project_name shop) = Some ''a7''"
    by (simp add: apps_dict_def shop_listing_def shop_def)
  have ne: "''a7'' \<noteq> []" and ne': "''u3'' \<noteq> []" by simp_all
  have run: "\<exists>tp r tpost w'.
      map fst tp = [GetRepositories (project_id shop), PostEvaluation ''a7'' ''main'' ''source''] \<and>
      sync example_sync ''42'' ''Alpha'' alpha_script =
        (r, [(GetProjects, Response 200 (ProjectsBody alpha_projects))] @
            [(GetApplications ''42'', Response 200 (ApplicationsBody shop_listing))] @
            [(GetRepositories ''p1'', Response 200 (RepositoriesBody [Some ''u1''])),
             (PostApplication ''billing'' ''42'', Response 200 (ApplicationBody ''a1'')),
             (PostSourceControl ''a1'' ''u1'' ''main'', Response 200 OtherBody),
             (PostEvaluation ''a1'' ''main'' ''source'', Response 200 OtherBody)] @ tp @ tpost,
         w')"
    using sync_only_scans_existing_application
      [where self = example_sync and p = shop and apps = "apps_dict shop_listing"
         and pre = "[billing]" and post = "[mail]" and chinese_name = "''Alpha''",
       OF example_sync_azure example_sync_iq example_sync_stage example_sync_branch
         alpha_projects_fetched alpha_split_shop alpha_listing_fetched ex ne alpha_before_shop
         alpha_shop_url ne', THEN conjunct2]
    by (elim exE conjE) (intro exI conjI, assumption+)
  have l: "fst (get_applications (iq example_sync) ''42'' (drop 1 alpha_script)) =
     Inr (apps_dict shop_listing)"
    by (simp only: alpha_listing_fetched fst_conv)
  show ?thesis by (intro conjI alpha_split_shop l ex run)
qed

text \<open>
  Claim C10, amended. \<^verbatim>\<open>Sync.sync\<close> decides existence by the truthiness of the id that
  the mapping it fetched binds to the project's name. For a matched project \<open>p\<close> that
  has a repository URL the run sends the creation POST right after the repository
  lookup whenever that id is falsy; in particular when the listing holds an application
  of that name with an empty id, and, for every such project, when the listing request
  fails and the mapping is empty.
\<close>

theorem sync_creates_when_mapped_id_is_falsy:
  assumes iq: "iq self = IQ srv"
    and br: "br = (case config self ''DEFAULT_BRANCH'' of None \<Rightarrow> ''main'' | Some b \<Rightarrow> b)"
    and gp: "get_projects (azure_devops self) w = (Inr all_projects, t1, w1)"
    and m: "matched_projects chinese_name all_projects = pre @ p # post"
    and ga: "get_applications (iq self) org w1 = (Inr apps, t2, w2)"
    and before: "sync_loop self org apps br pre \<lparr>created = 0, scanned = 0, errors = 0\<rparr> w2
                   = (Inr c, tpre, wp)"
    and url: "get_repo_url (azure_devops self) (project_id p) wp = (Inr (Some url), tu, wu)"
             "url \<noteq> []"
  shows "(\<not> truthy (apps (project_name p)) \<longrightarrow>
            (\<exists>ans rest r w'.
               sync self org chinese_name w =
                 (r, t1 @ t2 @ tpre @ tu @ (PostApplication (project_name p) org, ans) # rest, w'))) \<and>
         (\<forall>status listing.
            IQ_request srv (GetApplications org) w1 = (Inr (status, ApplicationsBody listing), t2, w2) \<and>
            (\<exists>a \<in> set listing. app_name a = project_name p) \<and>
            apps_dict listing (project_name p) = Some [] \<longrightarrow>
            apps = apps_dict listing \<and>
            (\<exists>ans rest r w'.
               sync self org chinese_name w =
                 (r, t1 @ t2 @ tpre @ tu @ (PostApplication (project_name p) org, ans) # rest, w'))) \<and>
         ((\<exists>e. fst (IQ_request srv (GetApplications org) w1) = Inl e) \<longrightarrow>
            apps = Map.empty \<and>
            (\<exists>ans rest r w'.
               sync self org chinese_name w =
                 (r, t1 @ t2 @ tpre @ tu @ (PostApplication (project_name p) org, ans) # rest, w')))"
proof -
  have main: "\<exists>ans rest r w'.
               sync self org chinese_name w =
                 (r, t1 @ t2 @ tpre @ tu @ (PostApplication (project_name p) org, ans) # rest, w')"
    if falsy: "\<not> truthy (apps (project_name p))"
  proof -
    from iteration_creates_on_falsy_id [where apps = apps and p = p and org = org and br = br and c = c, OF iq url falsy]
    obtain ans rest0 r0 wp' where step0:
      "sync_project self org apps br p c wp =
         (r0, tu @ (PostApplication (project_name p) org, ans) # rest0, wp')"
      by blast
    show ?thesis
    proof (cases r0)
      case (Inl e)
      have "get_repo_url (azure_devops self) (project_id p) wp = (Inr (Some url), tu, wu)"
        by (rule url(1))
      with step0 Inl url(2) have False
        by (auto simp: sync_project_def split: prod.splits option.splits)
      then show ?thesis ..
    next
      case (Inr c')
      with step0 have step: "sync_project self org apps br p c wp =
         (Inr c', tu @ (PostApplication (project_name p) org, ans) # rest0, wp')" by simp
      obtain r tpost w' where rest: "sync_loop self org apps br post c' wp' = (r, tpost, w')"
        by (metis prod.exhaust)
      from sync_run_split [OF gp m ga br before step rest]
      have "sync self org chinese_name w =
              (r, t1 @ t2 @ tpre @ tu @ (PostApplication (project_name p) org, ans) # (rest0 @ tpost), w')"
        by simp
      then show ?thesis by blast
    qed
  qed
  have real: "IQ_get_applications srv org w1 = (Inr apps, t2, w2)"
    using ga iq by (simp add: IQ_def)
  have listed: "apps = apps_dict listing"
    if "IQ_request srv (GetApplications org) w1 = (Inr (status, ApplicationsBody listing), t2, w2)"
    for status listing
    using real that by (simp add: IQ_get_applications_def)
  have failed: "apps = Map.empty"
    if "\<exists>e. fst (IQ_request srv (GetApplications org) w1) = Inl e"
    using real that by (auto simp: IQ_get_applications_def split: prod.splits)
  have c1: "\<not> truthy (apps (project_name p)) \<longrightarrow>
            (\<exists>ans rest r w'.
               sync self org chinese_name w =
                 (r, t1 @ t2 @ tpre @ tu @ (PostApplication (project_name p) org, ans) # rest, w'))"
    using main by blast
  have c2: "\<forall>status listing.
            IQ_request srv (GetApplications org) w1 = (Inr (status, ApplicationsBody listing), t2, w2) \<and>
            (\<exists>a \<in> set listing. app_name a = project_name p) \<and>
            apps_dict listing (project_name p) = Some [] \<longrightarrow>
            apps = apps_dict listing \<and>
            (\<exists>ans rest r w'.
               sync self org chinese_name w =
                 (r, t1 @ t2 @ tpre @ tu @ (PostApplication (project_name p) org, ans) # rest, w'))"
  proof (intro allI impI)
    fix status listing
    assume h: "IQ_request srv (GetApplications org) w1 = (Inr (status, ApplicationsBody listing), t2, w2) \<and>
            (\<exists>a \<in> set listing. app_name a = project_name p) \<and>
            apps_dict listing (project_name p) = Some []"
    then have a: "apps = apps_dict listing" using listed by blast
    with h have "\<not> truthy (apps (project_name p))" by (simp add: truthy_def)
    from main [OF this] a
    show "apps = apps_dict listing \<and>
            (\<exists>ans rest r w'.
               sync self org chinese_name w =
                 (r, t1 @ t2 @ tpre @ tu @ (PostApplication (project_name p) org, ans) # rest, w'))"
      by blast
  qed
  have c3: "(\<exists>e. fst (IQ_request srv (GetApplications org) w1) = Inl e) \<longrightarrow>
            apps = Map.empty \<and>
            (\<exists>ans rest r w'.
               sync self org chinese_name w =
                 (r, t1 @ t2 @ tpre @ tu @ (PostApplication (project_name p) org, ans) # rest, w'))"
  proof (rule impI)
    assume h: "\<exists>e. fst (IQ_request srv (GetApplications org) w1) = Inl e"
    then have a: "apps = Map.empty" by (rule failed)
    then have "\<not> truthy (apps (project_name p))" by (simp add: truthy_def)
    from main [OF this] a
    show "apps = Map.empty \<and>
            (\<exists>ans rest r w'.
               sync self org chinese_name w =
                 (r, t1 @ t2 @ tpre @ tu @ (PostApplication (project_name p) org, ans) # rest, w'))"
      by blast
  qed
  show ?thesis by (intro conjI c1 c2 c3)
qed

theorem sync_creates_when_mapped_id_is_falsy_witness:
  "apps_dict listed_apps (project_name billing) = Some [] \<and>
   fst (get_applications (iq example_sync) ''42'' (drop 1 listed_script)) =
     Inr (apps_dict listed_apps) \<and>
   (\<exists>ans rest r w'.
      sync example_sync ''42'' ''Alpha'' listed_script =
        (r, [(GetProjects, Response 200 (ProjectsBody [billing, mail]))] @
            [(GetApplications ''42'', Response 200 (ApplicationsBody listed_apps))] @ [] @
            [(GetRepositories ''p1'', Response 200 (RepositoriesBody [Some ''u1'']))] @
            (PostApplication (project_name billing) ''42'', ans) # rest, w')) \<and>
   fst (IQ_request replay (GetApplications ''43'') (drop 1 gamma_url_script)) =
     Inl RequestException \<and>
   (\<exists>ans rest r w'.
      sync example_sync ''43'' ''Gamma'' gamma_url_script =
        (r, [(GetProjects, Response 200 (ProjectsBody gamma_projects))] @
            [(GetApplications ''43'', ConnectionFailed)] @ [] @
            [(GetRepositories ''p9'', Response 200 (RepositoriesBody [Some ''u9'']))] @
            (PostApplication (project_name wiki) ''43'', ans) # rest, w'))"
proof -
  have d: "apps_dict listed_apps (project_name billing) = Some []"
    by (simp add: apps_dict_def listed_apps_def billing_def)
  have named: "\<exists>a \<in> set listed_apps. app_name a = project_name billing"
    by (simp add: listed_apps_def billing_def)
  have l: "fst (get_applications (iq example_sync) ''42'' (drop 1 listed_script)) =
     Inr (apps_dict listed_apps)"
    by (simp only: listed_listing_fetched fst_conv)
  have before: "sync_loop example_sync ''42'' (apps_dict listed_apps) ''main'' []
      \<lparr>created = 0, scanned = 0, errors = 0\<rparr> (drop 2 listed_script) =
      (Inr \<lparr>created = 0, scanned = 0, errors = 0\<rparr>, [], drop 2 listed_script)"
    by simp
  have ne: "''u1'' \<noteq> []" and ne': "''u9'' \<noteq> []" by simp_all
  have run1: "\<exists>ans rest r w'.
      sync example_sync ''42'' ''Alpha'' listed_script =
        (r, [(GetProjects, Response 200 (ProjectsBody [billing, mail]))] @
            [(GetApplications ''42'', Response 200 (ApplicationsBody listed_apps))] @ [] @
            [(GetRepositories ''p1'', Response 200 (RepositoriesBody [Some ''u1'']))] @
            (PostApplication (project_name billing) ''42'', ans) # rest, w')"
    by (rule sync_creates_when_mapped_id_is_falsy
      [where self = example_sync and srv = replay and p = billing
         and apps = "apps_dict listed_apps" and pre = "[]" and post = "[mail]"
         and chinese_name = "''Alpha''",
       OF example_sync_iq example_sync_branch listed_projects_fetched listed_split_billing
         listed_listing_fetched before listed_billing_url ne,
       THEN conjunct2, THEN conjunct1, rule_format,
       OF conjI [OF listed_request conjI [OF named d]], THEN conjunct2])
  have f: "fst (IQ_request replay (GetApplications ''43'') (drop 1 gamma_url_script)) =
     Inl RequestException"
    by (simp only: gamma_url_request fst_conv)
  then have fe: "\<exists>e. fst (IQ_request replay (GetApplications ''43'') (drop 1 gamma_url_script)) = Inl e"
    by (rule exI)
  have before': "sync_loop example_sync ''43'' Map.empty ''main'' []
      \<lparr>created = 0, scanned = 0, errors = 0\<rparr> (drop 2 gamma_url_script) =
      (Inr \<lparr>created = 0, scanned = 0, errors = 0\<rparr>, [], drop 2 gamma_url_script)"
    by simp
  have run2: "\<exists>ans rest r w'.
      sync example_sync ''43'' ''Gamma'' gamma_url_script =
        (r, [(GetProjects, Response 200 (ProjectsBody gamma_projects))] @
            [(GetApplications ''43'', ConnectionFailed)] @ [] @
            [(GetRepositories ''p9'', Response 200 (RepositoriesBody [Some ''u9'']))] @
            (PostApplication (project_name wiki) ''43'', ans) # rest, w')"
    by (rule sync_creates_when_mapped_id_is_falsy
      [where self = example_sync and srv = replay and p = wiki
         and apps = "Map.empty" and pre = "[]" and post = "[]"
         and chinese_name = "''Gamma''",
       OF example_sync_iq example_sync_branch gamma_url_projects_fetched gamma_split_wiki
         gamma_url_listing_fetched before' gamma_wiki_url ne',
       THEN conjunct2, THEN conjunct2, rule_format, OF fe, THEN conjunct2])
  show ?thesis by (intro conjI d l run1 f run2)
qed

end
